theory Spec2Isabelle
  imports Main "HOL-Library.Log_Nat"
begin

text \<open>
  The payroll program of \<open>Sahagun-abstraction-and-encapsulation.cpp\<close>: its
  validators, the three kinds of employee, the registry with its prompting
  loops, the report and the menu loop, as functions of the lines typed on
  standard input; then what holds of them.
\<close>

section \<open>Characters and text\<close>

text \<open>
  A \<open>std::string\<close> is a \<^typ>\<open>string\<close> (a list of bytes).  The character
  classes are those of the C locale, which is the one the program runs in
  (it never calls \<open>setlocale\<close>).
\<close>

definition isdigit :: "char \<Rightarrow> bool" where
  "isdigit c = (48 \<le> (of_char c :: nat) \<and> (of_char c :: nat) \<le> 57)"

text \<open>\<open>isspace\<close>: space, \<open>\t\<close>, \<open>\n\<close>, \<open>\v\<close>, \<open>\f\<close> and \<open>\r\<close>.\<close>

definition isspace :: "char \<Rightarrow> bool" where
  "isspace c = ((of_char c :: nat) = 32 \<or> (9 \<le> (of_char c :: nat) \<and> (of_char c :: nat) \<le> 13))"

definition digit_val :: "char \<Rightarrow> int" where
  "digit_val c = int (of_char c) - 48"

text \<open>The number a sequence of decimal digits denotes, read left to right.\<close>

definition digits_val :: "string \<Rightarrow> int" where
  "digits_val ds = foldl (\<lambda>a c. 10 * a + digit_val c) 0 ds"

section \<open>Exceptions of the standard library\<close>

datatype exn = Invalid_argument | Out_of_range

section \<open>Machine integers\<close>

text \<open>
  \<open>int\<close> is the 32-bit two's complement type; values are kept as mathematical
  integers and the one place where the range matters, \<open>std::stoi\<close>, checks it.
\<close>

definition INT_MIN :: int where "INT_MIN = - 2147483648"
definition INT_MAX :: int where "INT_MAX = 2147483647"

text \<open>
  \<open>std::stoi(input, &pos)\<close> is \<open>strtol\<close> in base 10 followed by a range
  check: \<open>strtol\<close> skips leading white space, reads an optional sign and then
  the longest run of digits.  Without a digit nothing is converted and
  \<open>std::invalid_argument\<close> is thrown; a value outside \<open>int\<close> throws
  \<open>std::out_of_range\<close>; otherwise the value is returned and \<open>pos\<close> is the
  number of characters consumed, white space and sign included.
\<close>

definition stoi :: "string \<Rightarrow> exn + (int \<times> nat)" where
  "stoi input =
     (let ws = takeWhile isspace input;
          r1 = dropWhile isspace input;
          neg = (r1 \<noteq> [] \<and> hd r1 = CHR ''-'');
          sg = (if r1 \<noteq> [] \<and> (hd r1 = CHR ''-'' \<or> hd r1 = CHR ''+'') then 1 else 0);
          r2 = drop sg r1;
          ds = takeWhile isdigit r2;
          v = (if neg then - digits_val ds else digits_val ds)
      in if ds = [] then Inl Invalid_argument
         else if v < INT_MIN \<or> INT_MAX < v then Inl Out_of_range
         else Inr (v, length ws + sg + length ds))"

text \<open>
  \<open>isValidInteger(input, output)\<close>: \<open>Some v\<close> stands for \<open>true\<close> with
  \<open>output = v\<close>, \<open>None\<close> for \<open>false\<close>.  Both exceptions of \<open>stoi\<close> are
  caught by the \<open>catch (const exception&)\<close> clause.
\<close>

definition isValidInteger :: "string \<Rightarrow> int option" where
  "isValidInteger input =
     (case stoi input of
        Inl e \<Rightarrow> None
      | Inr (output, pos) \<Rightarrow> if pos = length input then Some output else None)"

definition isValidMenuNumber :: "string \<Rightarrow> int \<Rightarrow> int \<Rightarrow> int option" where
  "isValidMenuNumber input mn mx =
     (if CHR '' '' \<in> set input then None
      else case isValidInteger input of
             Some output \<Rightarrow> if output \<ge> mn \<and> output \<le> mx then Some output else None
           | None \<Rightarrow> None)"

section \<open>Regular expressions\<close>

text \<open>
  The two patterns of the program are written with \<open>std::regex\<close> (ECMAScript
  grammar) and used through \<open>std::regex_match\<close>, which succeeds only when the
  whole text matches; the anchors \<open>^\<close> and \<open>$\<close> of the patterns therefore add
  nothing and have no constructor.  Matching is by derivatives.
\<close>

datatype atom = Lit char | Range char char | Digit_class

fun atom_match :: "atom \<Rightarrow> char \<Rightarrow> bool" where
  "atom_match (Lit a) c = (c = a)"
| "atom_match (Range lo hi) c =
     ((of_char lo :: nat) \<le> of_char c \<and> (of_char c :: nat) \<le> of_char hi)"
| "atom_match Digit_class c = isdigit c"

datatype regex = Zero | One | Sym "atom list" | Alt regex regex | Seq regex regex | Star regex

definition Opt :: "regex \<Rightarrow> regex" where
  "Opt r = Alt r One"

definition Plus :: "regex \<Rightarrow> regex" where
  "Plus r = Seq r (Star r)"

fun upto_times :: "nat \<Rightarrow> regex \<Rightarrow> regex" where
  "upto_times 0 r = One"
| "upto_times (Suc n) r = Opt (Seq r (upto_times n r))"

text \<open>\<open>Between r lo hi\<close> is the bounded repetition \<open>r{lo,hi}\<close>.\<close>

fun Between :: "regex \<Rightarrow> nat \<Rightarrow> nat \<Rightarrow> regex" where
  "Between r 0 hi = upto_times hi r"
| "Between r (Suc lo) hi = Seq r (Between r lo (hi - 1))"

fun nullable :: "regex \<Rightarrow> bool" where
  "nullable Zero = False"
| "nullable One = True"
| "nullable (Sym as) = False"
| "nullable (Alt r s) = (nullable r \<or> nullable s)"
| "nullable (Seq r s) = (nullable r \<and> nullable s)"
| "nullable (Star r) = True"

fun deriv :: "char \<Rightarrow> regex \<Rightarrow> regex" where
  "deriv c Zero = Zero"
| "deriv c One = Zero"
| "deriv c (Sym as) = (if \<exists>a \<in> set as. atom_match a c then One else Zero)"
| "deriv c (Alt r s) = Alt (deriv c r) (deriv c s)"
| "deriv c (Seq r s) =
     (if nullable r then Alt (Seq (deriv c r) s) (deriv c s) else Seq (deriv c r) s)"
| "deriv c (Star r) = Seq (deriv c r) (Star r)"

fun regex_match :: "string \<Rightarrow> regex \<Rightarrow> bool" where
  "regex_match [] r = nullable r"
| "regex_match (c # s) r = regex_match s (deriv c r)"

text \<open>\<^verbatim>\<open>^\d+(\.\d{1,2})?$\<close>\<close>

definition decimalRegex :: regex where
  "decimalRegex =
     Seq (Plus (Sym [Digit_class]))
         (Opt (Seq (Sym [Lit (CHR ''.'')]) (Between (Sym [Digit_class]) 1 2)))"

text \<open>\<^verbatim>\<open>^[a-zA-Z0-9]+$\<close>\<close>

definition idRegex :: regex where
  "idRegex =
     Plus (Sym [Range (CHR ''a'') (CHR ''z''), Range (CHR ''A'') (CHR ''Z''),
                Range (CHR ''0'') (CHR ''9'')])"

section \<open>Floating point\<close>

text \<open>
  A \<open>double\<close> is an IEEE 754 binary64 value: a finite value, given by the
  rational number it denotes, an infinity or a NaN.  The two zeros are one
  value here; the program never divides, so it cannot tell them apart
  except in print.

  \<open>to_double\<close> rounds a rational to the nearest binary64 value, ties to
  even, as \<open>strtod\<close> and the arithmetic of the machine do.  For \<open>a \<ge> 0\<close>
  let \<open>x = a * 2 ^ 1074\<close>, the number \<open>a\<close> in units of the smallest
  subnormal, and \<open>s\<close> the number of bits by which \<open>x\<close> exceeds the 53 bits of
  a significand (\<open>s = 0\<close> in the subnormal range and the first normal
  binade).  The significand is \<open>x / 2 ^ s\<close> rounded to an integer, halves
  to the even neighbour, and a result of \<open>2 ^ 1024\<close> or more overflows to
  infinity.
\<close>

datatype double = Finite rat | PInf | MInf | NaN

text \<open>
  The parameters of binary64, as in \<open><float.h>\<close>; \<open>DBL_DENORM_EXP\<close> is
  \<open>DBL_MANT_DIG - DBL_MIN_EXP\<close>: the smallest subnormal is \<open>2 ^ - 1074\<close>.
\<close>

definition DBL_MANT_DIG :: nat where "DBL_MANT_DIG = 53"
definition DBL_MAX_EXP :: nat where "DBL_MAX_EXP = 1024"
definition DBL_DENORM_EXP :: nat where "DBL_DENORM_EXP = 1074"

definition round_half_even :: "rat \<Rightarrow> int" where
  "round_half_even x =
     (let f = \<lfloor>x\<rfloor>; r = x - of_int f
      in if r < 1 / 2 then f else if 1 / 2 < r then f + 1
         else if even f then f else f + 1)"

text \<open>
  For \<open>x\<close> in units of the smallest subnormal: the shift \<open>s\<close>, and \<open>x\<close>
  rounded to a multiple of \<open>2 ^ s\<close>.
\<close>

definition shift_of :: "rat \<Rightarrow> nat" where
  "shift_of x = nat (bitlen \<lfloor>x\<rfloor> - int DBL_MANT_DIG)"

definition rounded :: "rat \<Rightarrow> int" where
  "rounded x = round_half_even (x / 2 ^ shift_of x) * 2 ^ shift_of x"

definition round_pos :: "rat \<Rightarrow> double" where
  "round_pos a =
     (let v = of_int (rounded (a * 2 ^ DBL_DENORM_EXP)) / 2 ^ DBL_DENORM_EXP
      in if 2 ^ DBL_MAX_EXP \<le> v then PInf else Finite v)"

fun dneg :: "double \<Rightarrow> double" where
  "dneg (Finite r) = Finite (- r)"
| "dneg PInf = MInf"
| "dneg MInf = PInf"
| "dneg NaN = NaN"

definition to_double :: "rat \<Rightarrow> double" where
  "to_double q = (if q < 0 then dneg (round_pos (- q)) else round_pos q)"

text \<open>The conversion of an \<open>int\<close> operand to \<open>double\<close> (exact for 32 bits).\<close>

definition double_of_int :: "int \<Rightarrow> double" where
  "double_of_int n = to_double (of_int n)"

text \<open>The sign of a value that is not a NaN: \<open>-1\<close>, \<open>0\<close> or \<open>1\<close>.\<close>

fun dsgn :: "double \<Rightarrow> int" where
  "dsgn (Finite r) = (if r < 0 then - 1 else if r = 0 then 0 else 1)"
| "dsgn PInf = 1"
| "dsgn MInf = - 1"
| "dsgn NaN = 0"

text \<open>The product \<open>a * b\<close> of two \<open>double\<close> values.\<close>

fun dmul :: "double \<Rightarrow> double \<Rightarrow> double" where
  "dmul (Finite a) (Finite b) = to_double (a * b)"
| "dmul NaN b = NaN"
| "dmul a NaN = NaN"
| "dmul a b =
     (if dsgn a * dsgn b = 0 then NaN else if dsgn a * dsgn b = 1 then PInf else MInf)"

text \<open>The comparison \<open>a > b\<close>; it is false when an operand is a NaN.\<close>

fun dgt :: "double \<Rightarrow> double \<Rightarrow> bool" where
  "dgt NaN b = False"
| "dgt a NaN = False"
| "dgt (Finite a) (Finite b) = (b < a)"
| "dgt PInf b = (b \<noteq> PInf)"
| "dgt a PInf = False"
| "dgt MInf b = False"
| "dgt a MInf = True"

text \<open>The comparison \<open>a >= b\<close>, for stating that a pay is not negative.\<close>

definition dge :: "double \<Rightarrow> double \<Rightarrow> bool" where
  "dge a b = (a \<noteq> NaN \<and> b \<noteq> NaN \<and> \<not> dgt b a)"

section \<open>The validators for decimals and identifiers\<close>

text \<open>
  \<open>std::stod(input)\<close> is \<open>strtod\<close> followed by a check of \<open>errno\<close>.  It is
  only ever called on text that matched \<open>decimalRegex\<close>: a run of digits,
  then possibly a point and more digits.  On such text \<open>strtod\<close> consumes all
  of it and returns the decimal number it spells, correctly rounded; when
  that overflows, \<open>strtod\<close> reports \<open>ERANGE\<close> and \<open>stod\<close> throws
  \<open>std::out_of_range\<close>.  The other forms \<open>strtod\<close> reads (leading white
  space, a sign, an exponent, hexadecimal, \<open>inf\<close>, \<open>nan\<close>) cannot reach this
  call and are outside this definition, which sends text that does not
  start with a digit to \<open>std::invalid_argument\<close>.
\<close>

definition stod :: "string \<Rightarrow> exn + double" where
  "stod input =
     (let ip = takeWhile isdigit input;
          r1 = dropWhile isdigit input;
          fp = (if r1 \<noteq> [] \<and> hd r1 = CHR ''.'' then takeWhile isdigit (tl r1) else [])
      in if ip = [] then Inl Invalid_argument
         else case to_double (of_int (digits_val (ip @ fp)) / 10 ^ length fp) of
                PInf \<Rightarrow> Inl Out_of_range
              | v \<Rightarrow> Inr v)"

text \<open>
  \<open>isValidDecimal(input, output)\<close>: \<open>Inr (Some v)\<close> stands for \<open>true\<close> with
  \<open>output = v\<close>, \<open>Inr None\<close> for \<open>false\<close>.  There is no \<open>try\<close> block here,
  so an exception of \<open>stod\<close> leaves the function: \<open>Inl e\<close>.
\<close>

definition isValidDecimal :: "string \<Rightarrow> exn + double option" where
  "isValidDecimal input =
     (if regex_match input decimalRegex
      then (case stod input of Inl e \<Rightarrow> Inl e | Inr output \<Rightarrow> Inr (Some output))
      else Inr None)"

definition isValidID :: "string \<Rightarrow> bool" where
  "isValidID ident =
     (if CHR '' '' \<in> set ident then False else regex_match ident idRegex)"

section \<open>Employees\<close>

text \<open>
  The abstract class \<open>Employee\<close> and its three derived classes are one
  datatype; the virtual member functions are functions by cases on it.
  The fields are, in order, \<open>id\<close>, \<open>name\<close> and those of the derived class:
  \<open>salary\<close>; \<open>hourlyWage\<close> and \<open>hoursWorked\<close>; \<open>paymentPerProject\<close> and
  \<open>projectsCompleted\<close>.
\<close>

datatype employee =
    FullTimeEmployee string string double
  | PartTimeEmployee string string double double
  | ContractualEmployee string string double int

fun getId :: "employee \<Rightarrow> string" where
  "getId (FullTimeEmployee ident name salary) = ident"
| "getId (PartTimeEmployee ident name hourlyWage hoursWorked) = ident"
| "getId (ContractualEmployee ident name paymentPerProject projectsCompleted) = ident"

fun getName :: "employee \<Rightarrow> string" where
  "getName (FullTimeEmployee ident name salary) = name"
| "getName (PartTimeEmployee ident name hourlyWage hoursWorked) = name"
| "getName (ContractualEmployee ident name paymentPerProject projectsCompleted) = name"

fun calculateSalary :: "employee \<Rightarrow> double" where
  "calculateSalary (FullTimeEmployee ident name salary) = salary"
| "calculateSalary (PartTimeEmployee ident name hourlyWage hoursWorked) =
     dmul hourlyWage hoursWorked"
| "calculateSalary (ContractualEmployee ident name paymentPerProject projectsCompleted) =
     dmul paymentPerProject (double_of_int projectsCompleted)"

section \<open>The console\<close>

text \<open>
  What \<open>cout\<close> receives is kept as the sequence of the values inserted with
  \<open><<\<close>, so that the formatting of numbers is left to the stream.
\<close>

datatype out = Str string | Dbl double | Num int | Endl

text \<open>
  \<open>cin\<close> holds the lines the operator has still to enter, \<open>cout\<close>
  everything printed so far.
\<close>

datatype console = Console (cin: "string list") (cout: "out list")

definition print :: "out list \<Rightarrow> console \<Rightarrow> console" where
  "print xs c = Console (cin c) (cout c @ xs)"

text \<open>
  The outcome of a call: it returns, or an exception leaves it, or it never
  returns.  Every loop of the program that reads a line goes round again
  unless the line is one it accepts, and a read that fails delivers no
  line; so a loop that has used up \<open>cin\<close> without accepting a line does
  not return: \<open>Blocks\<close>.
\<close>

datatype 'a outcome = Returns 'a | Throws exn | Blocks

definition bind :: "'a outcome \<Rightarrow> ('a \<Rightarrow> 'b outcome) \<Rightarrow> 'b outcome" where
  "bind m f = (case m of Returns a \<Rightarrow> f a | Throws e \<Rightarrow> Throws e | Blocks \<Rightarrow> Blocks)"

text \<open>The virtual \<open>displayPayrollReport\<close> of an employee: what it prints.\<close>

fun employee_displayPayrollReport :: "employee \<Rightarrow> out list" where
  "employee_displayPayrollReport (FullTimeEmployee ident name salary) =
     [Str ''Employee: '', Str name, Str '' (ID: '', Str ident, Str '')'', Endl,
      Str ''Fixed Monthly Salary: $'', Dbl salary, Endl]"
| "employee_displayPayrollReport (PartTimeEmployee ident name hourlyWage hoursWorked) =
     [Str ''Employee: '', Str name, Str '' (ID: '', Str ident, Str '')'', Endl,
      Str ''Hourly Wage: $'', Dbl hourlyWage, Endl,
      Str ''Hours Worked: '', Dbl hoursWorked, Endl,
      Str ''Total Salary: $'',
      Dbl (calculateSalary (PartTimeEmployee ident name hourlyWage hoursWorked)), Endl]"
| "employee_displayPayrollReport
     (ContractualEmployee ident name paymentPerProject projectsCompleted) =
     [Str ''Employee: '', Str name, Str '' (ID: '', Str ident, Str '')'', Endl,
      Str ''Contract Payment Per Project: $'', Dbl paymentPerProject, Endl,
      Str ''Projects Completed: '', Num projectsCompleted, Endl,
      Str ''Total Salary: $'',
      Dbl (calculateSalary
             (ContractualEmployee ident name paymentPerProject projectsCompleted)), Endl]"

section \<open>The payroll system\<close>

text \<open>
  The member functions of \<open>PayrollSystem\<close> take the vector \<open>employees\<close>
  and the console, and return what they return together with the console
  (and the vector, when they change it).
\<close>

definition isIdUnique :: "employee list \<Rightarrow> string \<Rightarrow> bool" where
  "isIdUnique employees ident = (\<not> list_ex (\<lambda>emp. getId emp = ident) employees)"

function getEmployeeId :: "employee list \<Rightarrow> console \<Rightarrow> (string \<times> console) outcome" where
  "getEmployeeId employees (Console [] out) = Blocks"
| "getEmployeeId employees (Console (ident # rest) out) =
     (let c = Console rest (out @ [Str ''Enter Employee ID: ''])
      in if ident = [] then
           getEmployeeId employees
             (print [Str ''ID cannot be empty. Please try again.'', Endl] c)
         else if \<not> isValidID ident then
           getEmployeeId employees
             (print [Str ''Invalid ID format! ID must contain only alphanumeric characters: ID must contain only letters and numbers with no spaces or special characters.'', Endl] c)
         else if \<not> isIdUnique employees ident then
           getEmployeeId employees
             (print [Str ''Duplicate ID! Please enter a unique ID.'', Endl] c)
         else Returns (ident, c))"
  by pat_completeness auto
termination
  by (relation "measure (\<lambda>(employees, c). length (cin c))") (auto simp: print_def)

function getEmployeeName :: "console \<Rightarrow> (string \<times> console) outcome" where
  "getEmployeeName (Console [] out) = Blocks"
| "getEmployeeName (Console (name # rest) out) =
     (let c = Console rest (out @ [Str ''Enter Employee Name: ''])
      in if name \<noteq> [] then Returns (name, c)
         else getEmployeeName (print [Str ''Name cannot be empty. Please try again.'', Endl] c))"
  by pat_completeness auto
termination
  by (relation "measure (\<lambda>c. length (cin c))") (auto simp: print_def)

function getValidDecimalInput :: "string \<Rightarrow> console \<Rightarrow> (double \<times> console) outcome" where
  "getValidDecimalInput prompt (Console [] out) = Blocks"
| "getValidDecimalInput prompt (Console (input # rest) out) =
     (let c = Console rest (out @ [Str prompt])
      in case isValidDecimal input of
           Inl e \<Rightarrow> Throws e
         | Inr (Some v) \<Rightarrow>
             if dgt v (double_of_int 0) then Returns (v, c)
             else getValidDecimalInput prompt
                    (print [Str ''Value must be greater than zero. Please try again.'', Endl] c)
         | Inr None \<Rightarrow>
             getValidDecimalInput prompt
               (print [Str ''Invalid format. Please enter a valid number.'', Endl] c))"
  by pat_completeness auto
termination
  by (relation "measure (\<lambda>(prompt, c). length (cin c))") (auto simp: print_def)

function getValidNumericInput :: "string \<Rightarrow> console \<Rightarrow> (int \<times> console) outcome" where
  "getValidNumericInput prompt (Console [] out) = Blocks"
| "getValidNumericInput prompt (Console (input # rest) out) =
     (let c = Console rest (out @ [Str prompt])
      in case isValidInteger input of
           Some v \<Rightarrow>
             if v \<ge> 0 then Returns (v, c)
             else getValidNumericInput prompt
                    (print [Str ''Value cannot be negative. Please try again.'', Endl] c)
         | None \<Rightarrow>
             getValidNumericInput prompt
               (print [Str ''Invalid input. Please enter a valid number.'', Endl] c))"
  by pat_completeness auto
termination
  by (relation "measure (\<lambda>(prompt, c). length (cin c))") (auto simp: print_def)

definition addFullTimeEmployee ::
  "employee list \<Rightarrow> console \<Rightarrow> (employee list \<times> console) outcome" where
  "addFullTimeEmployee employees c =
     bind (getEmployeeId employees c) (\<lambda>(ident, c).
     bind (getEmployeeName c) (\<lambda>(name, c).
     bind (getValidDecimalInput ''Enter Monthly Salary: $'' c) (\<lambda>(salary, c).
     Returns (employees @ [FullTimeEmployee ident name salary],
              print [Str ''Full-time employee added successfully!'', Endl] c))))"

definition addPartTimeEmployee ::
  "employee list \<Rightarrow> console \<Rightarrow> (employee list \<times> console) outcome" where
  "addPartTimeEmployee employees c =
     bind (getEmployeeId employees c) (\<lambda>(ident, c).
     bind (getEmployeeName c) (\<lambda>(name, c).
     bind (getValidDecimalInput ''Enter Hourly Wage: $'' c) (\<lambda>(hourlyWage, c).
     bind (getValidDecimalInput ''Enter Number of Hours Worked: '' c) (\<lambda>(hoursWorked, c).
     Returns (employees @ [PartTimeEmployee ident name hourlyWage hoursWorked],
              print [Str ''Part-time employee added successfully!'', Endl] c)))))"

definition addContractualEmployee ::
  "employee list \<Rightarrow> console \<Rightarrow> (employee list \<times> console) outcome" where
  "addContractualEmployee employees c =
     bind (getEmployeeId employees c) (\<lambda>(ident, c).
     bind (getEmployeeName c) (\<lambda>(name, c).
     bind (getValidDecimalInput ''Enter Payment Per Project: $'' c) (\<lambda>(paymentPerProject, c).
     bind (getValidNumericInput ''Enter Number of Projects Completed: '' c)
       (\<lambda>(projectsCompleted, c).
     Returns (employees @ [ContractualEmployee ident name paymentPerProject projectsCompleted],
              print [Str ''Contractual employee added successfully!'', Endl] c)))))"

text \<open>The range-based \<open>for\<close> loop of the report.\<close>

fun report_loop :: "employee list \<Rightarrow> console \<Rightarrow> console" where
  "report_loop [] c = c"
| "report_loop (emp # emps) c =
     report_loop emps (print [Endl] (print (employee_displayPayrollReport emp) c))"

definition displayPayrollReport :: "employee list \<Rightarrow> console \<Rightarrow> console" where
  "displayPayrollReport employees c =
     (if employees = [] then print [Str ''No employees to display.'', Endl] c
      else report_loop employees (print [Str ''------ Employee Payroll Report ------'', Endl] c))"

section \<open>The menu driver\<close>

definition menu :: "out list" where
  "menu =
     [Str ''\<newline>=============================\<newline>'',
      Str ''    PAYROLL SYSTEM MENU    \<newline>'',
      Str ''=============================\<newline>'',
      Str ''[1] Full-time Employee\<newline>'',
      Str ''[2] Part-time Employee\<newline>'',
      Str ''[3] Contractual Employee\<newline>'',
      Str ''[4] Display Payroll Report\<newline>'',
      Str ''[5] Exit\<newline>'',
      Str ''=============================\<newline>'',
      Str ''Enter your choice: '']"

text \<open>The \<open>switch\<close> on an accepted option.\<close>

definition dispatch ::
  "int \<Rightarrow> employee list \<Rightarrow> console \<Rightarrow> (employee list \<times> console) outcome" where
  "dispatch option employees c =
     (if option = 1 then addFullTimeEmployee employees c
      else if option = 2 then addPartTimeEmployee employees c
      else if option = 3 then addContractualEmployee employees c
      else if option = 4 then Returns (employees, displayPayrollReport employees c)
      else if option = 5 then Returns (employees, print [Str ''Exiting program. Goodbye!'', Endl] c)
      else Returns (employees, c))"

text \<open>
  One round of the \<open>do\<close> loop of \<open>main\<close>: the body, and then the value of
  the loop condition \<open>choice != "5"\<close>.
\<close>

fun main_body ::
  "employee list \<times> console \<Rightarrow> (bool \<times> employee list \<times> console) outcome" where
  "main_body (employees, Console [] out) = Blocks"
| "main_body (employees, Console (choice # rest) out) =
     (let c = Console rest (out @ menu)
      in bind (case isValidMenuNumber choice 1 5 of
                 Some option \<Rightarrow> dispatch option employees c
               | None \<Rightarrow>
                   Returns (employees,
                     print [Str ''Invalid choice. Please enter a number between 1 and 5.'', Endl] c))
           (\<lambda>st. Returns (choice \<noteq> ''5'', st)))"

function main_loop ::
  "employee list \<times> console \<Rightarrow> (employee list \<times> console) outcome" where
  "main_loop st =
     (case main_body st of
        Returns (continue, st') \<Rightarrow> if continue then main_loop st' else Returns st'
      | Throws e \<Rightarrow> Throws e
      | Blocks \<Rightarrow> Blocks)"
  by pat_completeness auto

text \<open>
  \<open>main\<close>: the vector starts empty, and the exit code is 0.  An exception
  that leaves \<open>main\<close> ends the process through \<open>std::terminate\<close>.
\<close>

definition main :: "string list \<Rightarrow> (int \<times> console) outcome" where
  "main input =
     bind (main_loop ([], Console input [])) (\<lambda>(employees, c). Returns (0, c))"

text \<open>
  The states of the vector and the console at the end of a round of the
  loop, on any input: the reachable states.
\<close>

inductive reachable :: "employee list \<times> console \<Rightarrow> bool" where
  start: "reachable ([], Console input [])"
| round: "reachable st \<Longrightarrow> main_body st = Returns (continue, st') \<Longrightarrow> reachable st'"

section \<open>The lexical shapes the specification names\<close>

text \<open>
  ``Exactly an optional leading sign followed by one or more base-10
  digits, with no other characters'', and the number such text denotes.
\<close>

definition unsigned_part :: "string \<Rightarrow> string" where
  "unsigned_part T =
     (if T \<noteq> [] \<and> (hd T = CHR ''+'' \<or> hd T = CHR ''-'') then tl T else T)"

definition integer_literal :: "string \<Rightarrow> bool" where
  "integer_literal T = (unsigned_part T \<noteq> [] \<and> list_all isdigit (unsigned_part T))"

definition literal_value :: "string \<Rightarrow> int" where
  "literal_value T =
     (if T \<noteq> [] \<and> hd T = CHR ''-'' then - digits_val (unsigned_part T)
      else digits_val (unsigned_part T))"

text \<open>``An ASCII letter or digit.''\<close>

definition isalnum :: "char \<Rightarrow> bool" where
  "isalnum c =
     ((97 \<le> (of_char c :: nat) \<and> (of_char c :: nat) \<le> 122) \<or>
      (65 \<le> (of_char c :: nat) \<and> (of_char c :: nat) \<le> 90) \<or>
      (48 \<le> (of_char c :: nat) \<and> (of_char c :: nat) \<le> 57))"

text \<open>
  ``One or more digits, optionally followed by a decimal point and one or
  two digits'', and the number such text denotes.
\<close>

definition decimal_text :: "string \<Rightarrow> bool" where
  "decimal_text T =
     (let ds = takeWhile isdigit T; rest = dropWhile isdigit T
      in ds \<noteq> [] \<and>
         (rest = [] \<or>
          (hd rest = CHR ''.'' \<and> (length (tl rest) = 1 \<or> length (tl rest) = 2) \<and>
           list_all isdigit (tl rest))))"

definition decimal_value :: "string \<Rightarrow> rat" where
  "decimal_value T =
     (let ds = takeWhile isdigit T; fs = drop 1 (dropWhile isdigit T)
      in of_int (digits_val (ds @ fs)) / 10 ^ length fs)"

text \<open>The fields of a record that were read as decimals.\<close>

fun decimal_fields :: "employee \<Rightarrow> double list" where
  "decimal_fields (FullTimeEmployee ident name salary) = [salary]"
| "decimal_fields (PartTimeEmployee ident name hourlyWage hoursWorked) =
     [hourlyWage, hoursWorked]"
| "decimal_fields (ContractualEmployee ident name paymentPerProject projectsCompleted) =
     [paymentPerProject]"

section \<open>Invariants of the registry\<close>

text \<open>
  A decimal field as the prompts deliver it: a finite value, positive and
  far above the subnormal range.
\<close>

fun field_ok :: "double \<Rightarrow> bool" where
  "field_ok (Finite r) = (1 / 200 < r)"
| "field_ok PInf = False"
| "field_ok MInf = False"
| "field_ok NaN = False"

fun employee_ok :: "employee \<Rightarrow> bool" where
  "employee_ok (FullTimeEmployee ident name salary) =
     (isValidID ident \<and> name \<noteq> [] \<and> field_ok salary)"
| "employee_ok (PartTimeEmployee ident name hourlyWage hoursWorked) =
     (isValidID ident \<and> name \<noteq> [] \<and> field_ok hourlyWage \<and> field_ok hoursWorked)"
| "employee_ok (ContractualEmployee ident name paymentPerProject projectsCompleted) =
     (isValidID ident \<and> name \<noteq> [] \<and> field_ok paymentPerProject \<and>
      0 \<le> projectsCompleted \<and> projectsCompleted \<le> INT_MAX)"

definition registry_ok :: "employee list \<Rightarrow> bool" where
  "registry_ok employees =
     (distinct (map getId employees) \<and> list_all employee_ok employees)"

text \<open>
  The pay a report shows: the numbers printed after the labels
  \<open>Fixed Monthly Salary: $\<close> and \<open>Total Salary: $\<close>, in order.
\<close>

fun pay_lines :: "out list \<Rightarrow> double list" where
  "pay_lines (Str label # Dbl v # rest) =
     (if label = ''Fixed Monthly Salary: $'' \<or> label = ''Total Salary: $''
      then v # pay_lines rest else pay_lines rest)"
| "pay_lines (x # rest) = pay_lines rest"
| "pay_lines [] = []"

section \<open>The pay formulas of the specification\<close>



section \<open>Rounding to binary64\<close>

lemma rhe_of_int: "round_half_even (of_int k) = k"
  by (simp add: round_half_even_def)

lemma rhe_ge_floor: "\<lfloor>x\<rfloor> \<le> round_half_even x"
  by (simp add: round_half_even_def Let_def)

lemma two_floor_gt:
  fixes y :: rat
  assumes "1 \<le> y"
  shows "y < 2 * of_int \<lfloor>y\<rfloor>"
proof -
  have "1 \<le> \<lfloor>y\<rfloor>" using assms by simp
  moreover have "y < of_int \<lfloor>y\<rfloor> + 1" by linarith
  ultimately show ?thesis by linarith
qed

lemma round_pos_alt:
  "round_pos a =
     (if (2::rat) ^ DBL_MAX_EXP \<le> of_int (rounded (a * 2 ^ DBL_DENORM_EXP)) / 2 ^ DBL_DENORM_EXP
      then PInf else Finite (of_int (rounded (a * 2 ^ DBL_DENORM_EXP)) / 2 ^ DBL_DENORM_EXP))"
  unfolding round_pos_def Let_def by (rule refl)

lemma shift_le:
  assumes "1 \<le> x"
  shows "(2::rat) ^ shift_of x \<le> x"
proof -
  let ?N = "\<lfloor>x\<rfloor>"
  have N: "0 < ?N" using assms by simp
  have b: "1 \<le> bitlen ?N" using N bitlen_eq_zero_iff[of ?N] bitlen_nonneg[of ?N] by linarith
  have "shift_of x \<le> nat (bitlen ?N - 1)"
    by (simp add: shift_of_def DBL_MANT_DIG_def)
  then have "(2::int) ^ shift_of x \<le> 2 ^ nat (bitlen ?N - 1)"
    by (simp add: power_increasing)
  also have "\<dots> \<le> ?N" using bitlen_bounds[OF N] by simp
  finally have "(2::int) ^ shift_of x \<le> ?N" .
  then have "of_int ((2::int) ^ shift_of x) \<le> (of_int ?N :: rat)" by (simp only: of_int_le_iff)
  also have "\<dots> \<le> x" by simp
  finally show ?thesis by simp
qed

lemma rounded_lower:
  assumes "1 \<le> x"
  shows "x < 2 * of_int (rounded x)"
proof -
  let ?s = "shift_of x"
  let ?y = "x / 2 ^ ?s"
  have y1: "1 \<le> ?y" using shift_le[OF assms] by (simp add: le_divide_eq)
  have "?y < 2 * of_int \<lfloor>?y\<rfloor>" by (rule two_floor_gt[OF y1])
  also have "\<dots> \<le> 2 * of_int (round_half_even ?y)"
    using rhe_ge_floor[of ?y] by simp
  finally have "?y < 2 * of_int (round_half_even ?y)" .
  then have "x < (2 * of_int (round_half_even ?y)) * 2 ^ ?s"
    by (simp add: divide_less_eq)
  then show ?thesis by (simp add: rounded_def)
qed

lemma rounded_nonneg:
  assumes "0 \<le> x"
  shows "0 \<le> rounded x"
proof -
  have "0 \<le> x / 2 ^ shift_of x" using assms by simp
  then have "0 \<le> \<lfloor>x / 2 ^ shift_of x\<rfloor>" by simp
  then have "0 \<le> round_half_even (x / 2 ^ shift_of x)"
    using rhe_ge_floor[of "x / 2 ^ shift_of x"] by linarith
  then show ?thesis by (simp add: rounded_def)
qed

lemma rounded_ge_power:
  assumes "(2::rat) ^ k \<le> x"
  shows "2 ^ k \<le> rounded x"
proof -
  let ?s = "shift_of x"
  let ?y = "x / 2 ^ ?s"
  have x1: "1 \<le> x" using assms one_le_power[of "2::rat" k] by linarith
  have y1: "1 \<le> ?y" using shift_le[OF x1] by (simp add: le_divide_eq)
  have m1: "1 \<le> round_half_even ?y"
  proof -
    have "1 \<le> \<lfloor>?y\<rfloor>" using y1 by simp
    then show ?thesis using rhe_ge_floor[of ?y] by linarith
  qed
  show ?thesis
  proof (cases "?s \<le> k")
    case True
    then have k: "k = (k - ?s) + ?s" by simp
    have "(2::rat) ^ (k - ?s) * 2 ^ ?s \<le> x"
      using assms k by (metis power_add)
    then have "(2::rat) ^ (k - ?s) \<le> ?y" by (simp add: le_divide_eq)
    then have "of_int (2 ^ (k - ?s)) \<le> ?y" by simp
    then have "2 ^ (k - ?s) \<le> \<lfloor>?y\<rfloor>" by (simp only: le_floor_iff)
    then have "2 ^ (k - ?s) \<le> round_half_even ?y" using rhe_ge_floor[of ?y] by linarith
    then have "(2::int) ^ (k - ?s) * 2 ^ ?s \<le> round_half_even ?y * 2 ^ ?s"
      by (simp add: mult_right_mono)
    then show ?thesis using k by (metis power_add rounded_def)
  next
    case False
    then have "(2::int) ^ k \<le> 2 ^ ?s" by (simp add: power_increasing)
    also have "\<dots> \<le> round_half_even ?y * 2 ^ ?s" using m1 by simp
    finally show ?thesis by (simp add: rounded_def)
  qed
qed

lemma rounded_exact:
  assumes "0 \<le> M" and "M < 2 ^ DBL_MANT_DIG"
  shows "rounded (of_int (M * 2 ^ t)) = M * 2 ^ t"
proof (cases "M = 0")
  case True
  then show ?thesis by (simp add: rounded_def rhe_of_int[of 0, simplified])
next
  case False
  with assms have M: "0 < M" by simp
  define x :: rat where "x = of_int (M * 2 ^ t)"
  define s where "s = shift_of x"
  have "bitlen M \<le> int DBL_MANT_DIG"
    using assms by (simp add: bitlen_le_iff_power)
  moreover have "\<lfloor>x\<rfloor> = M * 2 ^ t"
    unfolding x_def by (simp only: floor_of_int)
  moreover have "bitlen (M * 2 ^ t) = bitlen M + int t"
    using M by (rule bitlen_pow2)
  ultimately have st: "s \<le> t"
    by (simp only: s_def shift_of_def)
  then have "(2::int) ^ t = 2 ^ (t - s) * 2 ^ s"
    by (simp flip: power_add)
  then have Mt: "M * 2 ^ t = M * 2 ^ (t - s) * 2 ^ s"
    by (simp only: mult.assoc)
  then have xs: "x = of_int (M * 2 ^ (t - s)) * 2 ^ s"
    unfolding x_def by (simp only: of_int_mult of_int_power of_int_numeral)
  have "x / 2 ^ s = of_int (M * 2 ^ (t - s))"
    by (subst xs) simp
  then have "round_half_even (x / 2 ^ s) = M * 2 ^ (t - s)"
    by (simp only: rhe_of_int)
  then have "rounded x = M * 2 ^ (t - s) * 2 ^ s"
    by (simp only: rounded_def s_def)
  also have "\<dots> = M * 2 ^ t"
    by (rule Mt[symmetric])
  finally show ?thesis unfolding x_def .
qed

lemma round_pos_Finite:
  assumes "round_pos a = Finite r"
  shows "r = of_int (rounded (a * 2 ^ DBL_DENORM_EXP)) / 2 ^ DBL_DENORM_EXP"
  using assms unfolding round_pos_alt
  by (auto simp only: double.inject double.distinct split: if_splits)

lemma round_pos_zero: "round_pos 0 = Finite 0"
proof -
  have "(0::rat) < 2 ^ DBL_MAX_EXP" by simp
  then show ?thesis using rounded_exact[of 0 0] by (simp add: round_pos_alt not_le)
qed

lemma round_pos_cases: "round_pos a = PInf \<or> (\<exists>r. round_pos a = Finite r)"
  unfolding round_pos_alt by (rule if_split[THEN iffD2]) blast

lemma round_pos_overflow:
  assumes "2 ^ DBL_MAX_EXP \<le> a"
  shows "round_pos a = PInf"
proof -
  have "(2::rat) ^ (DBL_MAX_EXP + DBL_DENORM_EXP) \<le> a * 2 ^ DBL_DENORM_EXP"
    using assms by (simp add: power_add)
  then have "2 ^ (DBL_MAX_EXP + DBL_DENORM_EXP) \<le> rounded (a * 2 ^ DBL_DENORM_EXP)"
    by (rule rounded_ge_power)
  then have "(of_int (2 ^ (DBL_MAX_EXP + DBL_DENORM_EXP)) :: rat) \<le> of_int (rounded (a * 2 ^ DBL_DENORM_EXP))"
    by (simp only: of_int_le_iff)
  then have "(2::rat) ^ DBL_MAX_EXP \<le> of_int (rounded (a * 2 ^ DBL_DENORM_EXP)) / 2 ^ DBL_DENORM_EXP"
    by (simp add: power_add le_divide_eq)
  then show ?thesis by (simp only: round_pos_alt if_True)
qed

lemma round_pos_lower:
  assumes "1 / 2 ^ DBL_DENORM_EXP \<le> a" and "round_pos a = Finite r"
  shows "a < 2 * r"
proof -
  let ?x = "a * 2 ^ DBL_DENORM_EXP"
  have "1 \<le> ?x" using assms(1) by (simp add: divide_le_eq)
  then have "?x < 2 * of_int (rounded ?x)" by (rule rounded_lower)
  then have "a < 2 * (of_int (rounded ?x) / 2 ^ DBL_DENORM_EXP)"
    by (simp add: less_divide_eq)
  moreover have "r = of_int (rounded ?x) / 2 ^ DBL_DENORM_EXP"
    using assms(2) by (rule round_pos_Finite)
  ultimately show ?thesis by simp
qed

lemma round_pos_nonneg:
  assumes "0 \<le> a" and "round_pos a = Finite r"
  shows "0 \<le> r"
proof -
  let ?x = "a * 2 ^ DBL_DENORM_EXP"
  have "0 \<le> rounded ?x" using assms(1) by (simp add: rounded_nonneg)
  moreover have "r = of_int (rounded ?x) / 2 ^ DBL_DENORM_EXP"
    using assms(2) by (rule round_pos_Finite)
  ultimately show ?thesis by simp
qed

lemma round_pos_dyadic:
  assumes "0 \<le> n" and "n < 2 ^ DBL_MANT_DIG" and "k \<le> DBL_DENORM_EXP"
  shows "round_pos (of_int n / 2 ^ k) = Finite (of_int n / 2 ^ k)"
proof -
  let ?t = "DBL_DENORM_EXP - k"
  have e: "(2::rat) ^ DBL_DENORM_EXP = 2 ^ ?t * 2 ^ k"
    using assms(3) by (simp flip: power_add)
  have x: "of_int n / 2 ^ k * 2 ^ DBL_DENORM_EXP = (of_int (n * 2 ^ ?t) :: rat)"
    by (simp add: e)
  have r: "rounded (of_int (n * 2 ^ ?t)) = n * 2 ^ ?t"
    using assms(1,2) by (rule rounded_exact)
  have v: "(of_int (n * 2 ^ ?t) :: rat) / 2 ^ DBL_DENORM_EXP = of_int n / 2 ^ k"
    by (simp add: e)
  have "of_int n / (2::rat) ^ k \<le> of_int n" using assms(1) 
    by (simp add: divide_le_eq mult_le_cancel_left1)
  also have "\<dots> < 2 ^ DBL_MANT_DIG" using assms(2) by (metis of_int_less_numeral_power_cancel_iff)
  also have "\<dots> \<le> 2 ^ DBL_MAX_EXP" by (simp add: DBL_MANT_DIG_def DBL_MAX_EXP_def power_increasing)
  finally have "\<not> (2::rat) ^ DBL_MAX_EXP \<le> of_int n / 2 ^ k" by simp
  then show ?thesis unfolding round_pos_alt x r v by (simp only: if_False)
qed








section \<open>Matching the two patterns\<close>

lemma regex_match_Zero [simp]: "\<not> regex_match s Zero"
  by (induction s) simp_all

lemma regex_match_Seq_Zero [simp]: "\<not> regex_match s (Seq Zero r)"
  by (induction s) simp_all

lemma regex_match_One [simp]: "regex_match s One \<longleftrightarrow> s = []"
  by (cases s) simp_all

lemma regex_match_Sym:
  "regex_match s (Sym as) \<longleftrightarrow> (\<exists>c. s = [c] \<and> (\<exists>a \<in> set as. atom_match a c))"
  by (cases s) auto

lemma regex_match_Alt [simp]:
  "regex_match s (Alt r1 r2) \<longleftrightarrow> regex_match s r1 \<or> regex_match s r2"
  by (induction s arbitrary: r1 r2) simp_all

lemma regex_match_Seq:
  "regex_match s (Seq r1 r2) \<longleftrightarrow>
     (\<exists>u v. s = u @ v \<and> regex_match u r1 \<and> regex_match v r2)"
proof (induction s arbitrary: r1)
  case Nil
  then show ?case by simp
next
  case (Cons c s)
  have split: "(\<exists>u v. c # s = u @ v \<and> regex_match u r1 \<and> regex_match v r2) \<longleftrightarrow>
      (nullable r1 \<and> regex_match (c # s) r2) \<or>
      (\<exists>u v. s = u @ v \<and> regex_match (c # u) r1 \<and> regex_match v r2)"
    (is "?L \<longleftrightarrow> ?A \<or> ?B")
  proof
    assume ?L
    then obtain u v where uv: "c # s = u @ v" "regex_match u r1" "regex_match v r2" by blast
    show "?A \<or> ?B"
    proof (cases u)
      case Nil
      with uv show ?thesis by simp
    next
      case (Cons d u')
      with uv have "s = u' @ v" "regex_match (c # u') r1" by simp_all
      with uv(3) show ?thesis by blast
    qed
  next
    assume "?A \<or> ?B"
    then show ?L
    proof
      assume ?A
      then have "c # s = [] @ (c # s)" "regex_match [] r1" "regex_match (c # s) r2" by simp_all
      then show ?L by blast
    next
      assume ?B
      then obtain u v where "s = u @ v" "regex_match (c # u) r1" "regex_match v r2" by blast
      then have "c # s = (c # u) @ v" by simp
      with \<open>regex_match (c # u) r1\<close> \<open>regex_match v r2\<close> show ?L by blast
    qed
  qed
  show ?case
    unfolding split by (simp add: Cons.IH) blast
qed

lemma regex_match_Opt [simp]: "regex_match s (Opt r) \<longleftrightarrow> s = [] \<or> regex_match s r"
  by (auto simp: Opt_def)

lemma regex_match_Star_Sym:
  "regex_match s (Star (Sym as)) \<longleftrightarrow> (\<forall>c \<in> set s. \<exists>a \<in> set as. atom_match a c)"
proof (induction s)
  case Nil
  then show ?case by simp
next
  case (Cons c s)
  show ?case
  proof (cases "\<exists>a \<in> set as. atom_match a c")
    case True
    then have "regex_match (c # s) (Star (Sym as)) \<longleftrightarrow> regex_match s (Seq One (Star (Sym as)))"
      by simp
    also have "\<dots> \<longleftrightarrow> regex_match s (Star (Sym as))"
      by (simp add: regex_match_Seq)
    finally show ?thesis using True Cons.IH by simp
  next
    case False
    then have "regex_match (c # s) (Star (Sym as)) \<longleftrightarrow> regex_match s (Seq Zero (Star (Sym as)))"
      by simp
    then show ?thesis using False by (simp add: regex_match_Seq)
  qed
qed

lemma regex_match_Plus_Sym:
  "regex_match s (Plus (Sym as)) \<longleftrightarrow> s \<noteq> [] \<and> (\<forall>c \<in> set s. \<exists>a \<in> set as. atom_match a c)"
proof (cases s)
  case Nil
  then show ?thesis by (simp add: Plus_def)
next
  case (Cons c t)
  have "regex_match s (Plus (Sym as)) \<longleftrightarrow> regex_match s (Star (Sym as))"
    using Cons by (simp add: Plus_def)
  then show ?thesis using Cons by (simp add: regex_match_Star_Sym)
qed


lemma digit_atom [simp]: "(\<exists>a \<in> set [Digit_class]. atom_match a c) \<longleftrightarrow> isdigit c"
  by simp

lemma Between_1_2:
  "Between r 1 2 = Seq r (Opt (Seq r One))"
  by (simp add: numeral_2_eq_2)

lemma regex_match_one_or_two_digits:
  "regex_match s (Seq (Sym [Digit_class]) (Opt (Seq (Sym [Digit_class]) One))) \<longleftrightarrow>
     (length s = 1 \<or> length s = 2) \<and> list_all isdigit s"
proof (cases s)
  case Nil
  then show ?thesis by simp
next
  case s1: (Cons a t)
  show ?thesis
  proof (cases t)
    case Nil
    with s1 show ?thesis by (simp add: Opt_def)
  next
    case s2: (Cons b u)
    show ?thesis
    proof (cases u)
      case Nil
      with s1 s2 show ?thesis by (simp add: Opt_def)
    next
      case (Cons c w)
      with s1 s2 show ?thesis by (simp add: Opt_def)
    qed
  qed
qed

lemma regex_match_Between_1_2:
  "regex_match s (Between (Sym [Digit_class]) 1 2) \<longleftrightarrow>
     (length s = 1 \<or> length s = 2) \<and> list_all isdigit s"
  by (simp only: Between_1_2 regex_match_one_or_two_digits)

lemma isdigit_point [simp]: "\<not> isdigit (CHR ''.'')"
  by (simp add: isdigit_def)

lemma takeWhile_digits_append:
  assumes "list_all isdigit u" and "v = [] \<or> \<not> isdigit (hd v)"
  shows "takeWhile isdigit (u @ v) = u" and "dropWhile isdigit (u @ v) = v"
proof -
  from assms(2) have "takeWhile isdigit v = []" "dropWhile isdigit v = v"
    by (cases v; simp)+
  with assms(1) show "takeWhile isdigit (u @ v) = u" "dropWhile isdigit (u @ v) = v"
    by (simp_all add: list_all_iff takeWhile_append2 dropWhile_append2)
qed

lemma regex_match_decimalRegex:
  "regex_match T decimalRegex \<longleftrightarrow> decimal_text T"
proof
  assume "regex_match T decimalRegex"
  then obtain u v where uv: "T = u @ v" "regex_match u (Plus (Sym [Digit_class]))"
    "v = [] \<or> regex_match v (Seq (Sym [Lit (CHR ''.'')]) (Between (Sym [Digit_class]) 1 2))"
    by (auto simp: decimalRegex_def regex_match_Seq[of T])
  from uv(2) have u: "u \<noteq> []" "list_all isdigit u"
    by (simp_all add: regex_match_Plus_Sym list_all_iff)
  from uv(3) have v: "v = [] \<or> (\<exists>f. v = CHR ''.'' # f \<and> (length f = 1 \<or> length f = 2) \<and> list_all isdigit f)"
    by (auto simp: regex_match_Seq[of v] regex_match_Sym regex_match_one_or_two_digits)
  then have "v = [] \<or> \<not> isdigit (hd v)" by auto
  from takeWhile_digits_append[OF u(2) this] uv(1)
  have "takeWhile isdigit T = u" "dropWhile isdigit T = v" by simp_all
  with u v show "decimal_text T" by (auto simp: decimal_text_def)
next
  assume d: "decimal_text T"
  let ?u = "takeWhile isdigit T" and ?v = "dropWhile isdigit T"
  have T: "T = ?u @ ?v" by simp
  have u: "regex_match ?u (Plus (Sym [Digit_class]))"
    using d by (auto simp: decimal_text_def regex_match_Plus_Sym Let_def dest: set_takeWhileD)
  have v: "?v = [] \<or> regex_match ?v (Seq (Sym [Lit (CHR ''.'')]) (Between (Sym [Digit_class]) 1 2))"
  proof (cases ?v)
    case Nil
    then show ?thesis by simp
  next
    case (Cons p f)
    with d have "p = CHR ''.''" "length f = 1 \<or> length f = 2" "list_all isdigit f"
      by (auto simp: decimal_text_def Let_def)
    then have "?v = [CHR ''.''] @ f" "regex_match [CHR ''.''] (Sym [Lit (CHR ''.'')])"
      "regex_match f (Between (Sym [Digit_class]) 1 2)"
      using Cons by (simp_all add: regex_match_one_or_two_digits)
    then show ?thesis unfolding regex_match_Seq[of ?v] by blast
  qed
  from T u v show "regex_match T decimalRegex"
    unfolding decimalRegex_def regex_match_Seq[of T] regex_match_Opt by blast
qed

section \<open>The integer validator\<close>

lemmas char_defs = isdigit_def isspace_def digit_val_def digits_val_def
lemmas integer_defs = isValidInteger_def stoi_def INT_MIN_def INT_MAX_def Let_def
lemmas literal_defs = integer_literal_def unsigned_part_def literal_value_def

lemma isdigit_not_isspace: "isdigit c \<Longrightarrow> \<not> isspace c"
  by (auto simp: isdigit_def isspace_def)

lemma sign_chars [simp]:
  "\<not> isdigit (CHR ''+'')" "\<not> isdigit (CHR ''-'')"
  "\<not> isspace (CHR ''+'')" "\<not> isspace (CHR ''-'')"
  by (simp_all add: isdigit_def isspace_def)

lemma digit_val_range: "isdigit c \<Longrightarrow> 0 \<le> digit_val c \<and> digit_val c \<le> 9"
  by (auto simp: isdigit_def digit_val_def)

lemma foldl_digits_nonneg:
  "0 \<le> a \<Longrightarrow> list_all isdigit ds \<Longrightarrow> 0 \<le> foldl (\<lambda>a c. 10 * a + digit_val c) a ds"
proof (induction ds arbitrary: a)
  case Nil
  then show ?case by simp
next
  case (Cons d ds)
  then have "0 \<le> 10 * a + digit_val d" using digit_val_range[of d] by simp
  with Cons show ?case by simp
qed

lemma digits_val_nonneg: "list_all isdigit ds \<Longrightarrow> 0 \<le> digits_val ds"
  by (simp add: digits_val_def foldl_digits_nonneg)

lemma takeWhile_full:
  "length (takeWhile P xs) = length xs \<Longrightarrow> takeWhile P xs = xs"
  by (metis append_eq_conv_conj takeWhile_dropWhile_id take_all_iff order_refl)

lemma unsigned_part_drop:
  "unsigned_part T = drop (if T \<noteq> [] \<and> (hd T = CHR ''-'' \<or> hd T = CHR ''+'') then 1 else 0) T"
  by (cases T) (auto simp: unsigned_part_def)

lemma isValidInteger_SomeD:
  assumes "isValidInteger T = Some v"
  shows "integer_literal (dropWhile isspace T) \<and> v = literal_value (dropWhile isspace T) \<and>
         INT_MIN \<le> v \<and> v \<le> INT_MAX"
proof -
  define r1 where "r1 = dropWhile isspace T"
  define sg :: nat where "sg = (if r1 \<noteq> [] \<and> (hd r1 = CHR ''-'' \<or> hd r1 = CHR ''+'') then 1 else 0)"
  define ds where "ds = takeWhile isdigit (drop sg r1)"
  define w where "w = (if r1 \<noteq> [] \<and> hd r1 = CHR ''-'' then - digits_val ds else digits_val ds)"
  have st: "stoi T = (if ds = [] then Inl Invalid_argument
         else if w < INT_MIN \<or> INT_MAX < w then Inl Out_of_range
         else Inr (w, length (takeWhile isspace T) + sg + length ds))"
    unfolding stoi_def Let_def r1_def sg_def ds_def w_def by (rule refl)
  from assms have ok: "ds \<noteq> []" "INT_MIN \<le> w" "w \<le> INT_MAX" "v = w"
    and len: "length (takeWhile isspace T) + sg + length ds = length T"
    by (auto simp: isValidInteger_def st split: if_splits)
  have "length T = length (takeWhile isspace T) + length r1"
    unfolding r1_def by (metis length_append takeWhile_dropWhile_id)
  with len have "sg + length ds = length r1" by simp
  moreover have "sg \<le> length r1" by (cases r1) (simp_all add: sg_def)
  ultimately have "length ds = length (drop sg r1)" by simp
  then have ds: "ds = drop sg r1" unfolding ds_def by (rule takeWhile_full)
  then have "list_all isdigit (drop sg r1)"
    using ds_def by (metis list_all_iff set_takeWhileD)
  moreover have u: "unsigned_part r1 = drop sg r1"
    unfolding sg_def by (rule unsigned_part_drop)
  ultimately have "integer_literal r1"
    using ok(1) ds by (simp add: integer_literal_def)
  moreover have "literal_value r1 = w"
    unfolding literal_value_def u w_def ds by (rule refl)
  ultimately show ?thesis using ok by (simp add: r1_def)
qed

lemma stoi_literal:
  assumes "list_all isspace ws" and "integer_literal body"
  shows "stoi (ws @ body) =
           (if literal_value body < INT_MIN \<or> INT_MAX < literal_value body
            then Inl Out_of_range
            else Inr (literal_value body, length (ws @ body)))"
proof -
  from assms(2) obtain b bs where body: "body = b # bs"
    by (cases body) (auto simp: integer_literal_def unsigned_part_def)
  have "\<not> isspace b"
    using assms(2) body
    by (cases "b = CHR ''+'' \<or> b = CHR ''-''")
       (auto simp: integer_literal_def unsigned_part_def isdigit_not_isspace)
  then have tw: "takeWhile isspace (ws @ body) = ws" "dropWhile isspace (ws @ body) = body"
    using assms(1) body by (simp_all add: list_all_iff takeWhile_append2 dropWhile_append2)
  define sg :: nat where "sg = (if body \<noteq> [] \<and> (hd body = CHR ''-'' \<or> hd body = CHR ''+'') then 1 else 0)"
  have u: "unsigned_part body = drop sg body"
    unfolding sg_def by (rule unsigned_part_drop)
  from assms(2) have d: "drop sg body \<noteq> []" "list_all isdigit (drop sg body)"
    by (simp_all add: integer_literal_def u)
  then have tk: "takeWhile isdigit (drop sg body) = drop sg body"
    by (simp add: list_all_iff)
  have "sg \<le> length body" using body by (simp add: sg_def)
  then have len: "length ws + sg + length (drop sg body) = length (ws @ body)" by simp
  show ?thesis
    unfolding stoi_def Let_def tw sg_def[symmetric] tk len
    using d(1) by (auto simp: literal_value_def u)
qed

lemma isValidInteger_SomeI:
  assumes "list_all isspace ws" and "integer_literal body"
    and "INT_MIN \<le> literal_value body" and "literal_value body \<le> INT_MAX"
  shows "isValidInteger (ws @ body) = Some (literal_value body)"
  using assms(3,4) by (simp add: isValidInteger_def stoi_literal[OF assms(1,2)])

text \<open>
  C9.  \<open>isValidInteger\<close> fails, rather than overflowing or aborting, on every
  integer literal whose value lies outside the range of \<open>int\<close>: \<open>stoi\<close>
  throws \<open>std::out_of_range\<close>, the exception is caught and \<open>false\<close> is
  returned.  So a lexically well-formed literal can be rejected.
\<close>

theorem C9_out_of_range_is_rejected:
  assumes "integer_literal T"
    and "literal_value T < INT_MIN \<or> INT_MAX < literal_value T"
  shows "stoi T = Inl Out_of_range \<and> isValidInteger T = None"
proof -
  have "stoi ([] @ T) = Inl Out_of_range"
    using assms by (simp only: stoi_literal[of "[]" T, simplified] append_Nil if_True)
  then show ?thesis by (simp add: isValidInteger_def)
qed

theorem C9_out_of_range_is_rejected_witness:
  "integer_literal ''99999999999999'' \<and> INT_MAX < literal_value ''99999999999999'' \<and>
   stoi ''99999999999999'' = Inl Out_of_range \<and> isValidInteger ''99999999999999'' = None"
proof -
  have h: "integer_literal ''99999999999999''" "INT_MAX < literal_value ''99999999999999''"
    by (simp_all add: literal_defs char_defs INT_MAX_def)
  from C9_out_of_range_is_rejected[OF h(1)] h show ?thesis by simp
qed

text \<open>
  C3, as stated, fails in both directions: \<open>stoi\<close> skips leading white
  space, so \<open>" 42"\<close> is accepted, and a literal outside the range of \<open>int\<close>
  is rejected.
\<close>

theorem C3_counterexample:
  "isValidInteger '' 42'' = Some 42 \<and> \<not> integer_literal '' 42'' \<and>
   integer_literal ''99999999999999'' \<and> isValidInteger ''99999999999999'' = None"
  by (simp add: integer_defs literal_defs char_defs)

text \<open>
  C3, amended.  \<open>isValidInteger\<close> succeeds on a text, with the value \<open>v\<close>,
  if and only if the text is some white space (possibly none) followed by
  exactly an optional sign and one or more decimal digits, and the number
  \<open>v\<close> it denotes lies in the range of \<open>int\<close>.  Nothing may follow the
  digits, and no white space may stand after the sign or among the digits.
\<close>

theorem C3_parseInteger_accepts:
  "isValidInteger T = Some v \<longleftrightarrow>
     (\<exists>ws body. T = ws @ body \<and> list_all isspace ws \<and> integer_literal body \<and>
        v = literal_value body \<and> INT_MIN \<le> v \<and> v \<le> INT_MAX)"
proof
  assume a: "isValidInteger T = Some v"
  have "T = takeWhile isspace T @ dropWhile isspace T" by simp
  moreover have "list_all isspace (takeWhile isspace T)"
    by (simp add: list_all_iff) (meson set_takeWhileD)
  ultimately show "\<exists>ws body. T = ws @ body \<and> list_all isspace ws \<and> integer_literal body \<and>
        v = literal_value body \<and> INT_MIN \<le> v \<and> v \<le> INT_MAX"
    using isValidInteger_SomeD[OF a] by blast
next
  assume "\<exists>ws body. T = ws @ body \<and> list_all isspace ws \<and> integer_literal body \<and>
        v = literal_value body \<and> INT_MIN \<le> v \<and> v \<le> INT_MAX"
  then show "isValidInteger T = Some v"
    using isValidInteger_SomeI by blast
qed

theorem C3_parseInteger_accepts_witness:
  "isValidInteger ''-17'' = Some (- 17) \<and> isValidInteger ''+5'' = Some 5 \<and>
   isValidInteger ''12a'' = None \<and> isValidInteger ''1 2'' = None \<and>
   isValidInteger ''- 3'' = None \<and> isValidInteger '''' = None \<and>
   (\<exists>ws body. ''-17'' = ws @ body \<and> list_all isspace ws \<and> integer_literal body \<and>
        - 17 = literal_value body \<and> INT_MIN \<le> - 17 \<and> - 17 \<le> INT_MAX)"
proof -
  have e: "isValidInteger ''-17'' = Some (- 17)" "isValidInteger ''+5'' = Some 5"
    "isValidInteger ''12a'' = None" "isValidInteger ''1 2'' = None"
    "isValidInteger ''- 3'' = None" "isValidInteger '''' = None"
    by (simp_all add: integer_defs char_defs)
  from e(1) C3_parseInteger_accepts[of "''-17''" "- 17"] e show ?thesis by blast
qed

section \<open>The decimal validator\<close>

lemma decimal_textD:
  assumes "decimal_text T"
  shows "takeWhile isdigit T \<noteq> [] \<and>
         (dropWhile isdigit T = [] \<or>
          (\<exists>f. dropWhile isdigit T = CHR ''.'' # f \<and> (length f = 1 \<or> length f = 2) \<and>
               list_all isdigit f))"
proof -
  define rest where "rest = dropWhile isdigit T"
  from assms have "takeWhile isdigit T \<noteq> [] \<and>
         (rest = [] \<or>
          (hd rest = CHR ''.'' \<and> (length (tl rest) = 1 \<or> length (tl rest) = 2) \<and>
           list_all isdigit (tl rest)))"
    unfolding decimal_text_def Let_def rest_def .
  then have "takeWhile isdigit T \<noteq> [] \<and>
         (rest = [] \<or>
          (\<exists>f. rest = CHR ''.'' # f \<and> (length f = 1 \<or> length f = 2) \<and> list_all isdigit f))"
    by (cases rest) auto
  then show ?thesis unfolding rest_def .
qed

lemma stod_decimal_text:
  assumes "decimal_text T"
  shows "stod T = (case to_double (decimal_value T) of PInf \<Rightarrow> Inl Out_of_range | v \<Rightarrow> Inr v)"
proof -
  define rest where "rest = dropWhile isdigit T"
  from decimal_textD[OF assms] have ds: "takeWhile isdigit T \<noteq> []"
    and r: "rest = [] \<or> (\<exists>f. rest = CHR ''.'' # f \<and> list_all isdigit f)"
    unfolding rest_def by blast+
  from r have "(if rest \<noteq> [] \<and> hd rest = CHR ''.'' then takeWhile isdigit (tl rest) else [])
              = drop 1 rest"
    by (auto simp: list_all_iff)
  then show ?thesis
    unfolding stod_def Let_def decimal_value_def rest_def using ds by simp
qed

lemma isValidDecimal_eq:
  "isValidDecimal T =
     (if decimal_text T
      then (case to_double (decimal_value T) of
              PInf \<Rightarrow> Inl Out_of_range | v \<Rightarrow> Inr (Some v))
      else Inr None)"
  by (simp add: isValidDecimal_def regex_match_decimalRegex stod_decimal_text
        split: double.splits)

lemma decimal_value_range:
  assumes "decimal_text T"
  shows "decimal_value T = 0 \<or> 1 / 100 \<le> decimal_value T"
proof -
  define ds where "ds = takeWhile isdigit T"
  define rest where "rest = dropWhile isdigit T"
  define fs where "fs = drop 1 rest"
  define n where "n = digits_val (ds @ fs)"
  have v: "decimal_value T = of_int n / 10 ^ length fs"
    unfolding decimal_value_def Let_def n_def fs_def rest_def ds_def by (rule refl)
  have "list_all isdigit ds"
    unfolding ds_def by (simp add: list_all_iff) (meson set_takeWhileD)
  moreover from decimal_textD[OF assms]
  have "rest = [] \<or> (\<exists>f. rest = CHR ''.'' # f \<and> (length f = 1 \<or> length f = 2) \<and>
               list_all isdigit f)"
    unfolding rest_def by blast
  then have fs: "list_all isdigit fs \<and> length fs \<le> 2"
    unfolding fs_def by auto
  ultimately have n0: "0 \<le> n" unfolding n_def by (intro digits_val_nonneg) simp
  have p: "(10::rat) ^ length fs \<le> 100"
    using fs power_increasing[of "length fs" 2 "10::rat"] by simp
  show ?thesis
  proof (cases "n = 0")
    case True
    then show ?thesis by (simp add: v)
  next
    case False
    with n0 have "1 \<le> n" by linarith
    then have "(1::rat) \<le> of_int n" by simp
    then have "(1::rat) / 100 \<le> of_int n / 10 ^ length fs"
      using p by (intro frac_le) simp_all
    then show ?thesis by (simp add: v)
  qed
qed

lemma to_double_zero: "to_double 0 = Finite 0"
  by (simp add: to_double_def round_pos_zero)

lemma double_of_int_zero: "double_of_int 0 = Finite 0"
  by (simp add: double_of_int_def to_double_zero)

lemma to_double_nonneg:
  assumes "0 \<le> q"
  shows "to_double q = PInf \<or> (\<exists>r. to_double q = Finite r \<and> 0 \<le> r)"
  using assms round_pos_cases[of q] round_pos_nonneg[of q]
  by (auto simp: to_double_def)

lemma to_double_lower:
  assumes "1 / 2 ^ DBL_DENORM_EXP \<le> q" and "to_double q = Finite r"
  shows "q < 2 * r"
proof -
  have "(0::rat) < 1 / 2 ^ DBL_DENORM_EXP" by simp
  with assms(1) have "0 \<le> q" by linarith
  with assms(2) have "round_pos q = Finite r" by (simp add: to_double_def)
  with assms(1) show ?thesis by (rule round_pos_lower)
qed

lemma to_double_overflow:
  "2 ^ DBL_MAX_EXP \<le> q \<Longrightarrow> to_double q = PInf"
proof -
  assume a: "2 ^ DBL_MAX_EXP \<le> q"
  have "(0::rat) < 2 ^ DBL_MAX_EXP" by simp
  with a have "\<not> q < 0" by linarith
  with a show ?thesis by (simp add: to_double_def round_pos_overflow)
qed

lemma to_double_dyadic:
  assumes "\<bar>n\<bar> < 2 ^ DBL_MANT_DIG" and "k \<le> DBL_DENORM_EXP"
  shows "to_double (of_int n / 2 ^ k) = Finite (of_int n / 2 ^ k)"
proof (cases "n < 0")
  case True
  then have neg: "(of_int n :: rat) / 2 ^ k < 0" by (simp add: divide_neg_pos)
  have "round_pos (of_int (- n) / 2 ^ k) = Finite (of_int (- n) / 2 ^ k)"
    using True assms by (intro round_pos_dyadic) simp_all
  then show ?thesis using neg by (simp add: to_double_def)
next
  case False
  then have "\<not> (of_int n :: rat) / 2 ^ k < 0" by (simp add: not_less)
  moreover have "round_pos (of_int n / 2 ^ k) = Finite (of_int n / 2 ^ k)"
    using False assms by (intro round_pos_dyadic) simp_all
  ultimately show ?thesis by (simp add: to_double_def)
qed

lemma to_double_of_int:
  assumes "\<bar>n\<bar> < 2 ^ DBL_MANT_DIG"
  shows "to_double (of_int n) = Finite (of_int n)"
  using to_double_dyadic[OF assms, of 0] by simp

lemma denorm_small: "(1::rat) / 2 ^ DBL_DENORM_EXP \<le> 1 / 40000"
proof -
  have "(2::rat) ^ 16 \<le> 2 ^ DBL_DENORM_EXP"
    by (rule power_increasing) (simp_all add: DBL_DENORM_EXP_def)
  then have "(40000::rat) \<le> 2 ^ DBL_DENORM_EXP" by simp
  then show ?thesis by (intro frac_le) simp_all
qed

lemma to_double_positive:
  assumes "1 / 40000 \<le> q"
  shows "to_double q = PInf \<or> (\<exists>r. to_double q = Finite r \<and> q < 2 * r)"
proof -
  have "1 / 2 ^ DBL_DENORM_EXP \<le> q" using assms denorm_small by linarith
  moreover have "0 \<le> q" using assms by simp
  ultimately show ?thesis using to_double_nonneg[of q] to_double_lower[of q] by blast
qed

lemma foldl_nines:
  "foldl (\<lambda>a c. 10 * a + digit_val c) a (replicate n (CHR ''9'')) = (a + 1) * 10 ^ n - 1"
proof (induction n arbitrary: a)
  case 0
  show ?case by simp
next
  case (Suc n)
  define f where "f = (\<lambda>a c. 10 * a + digit_val c)"
  have "digit_val (CHR ''9'') = 9" by (simp add: digit_val_def)
  then have "foldl f a (replicate (Suc n) (CHR ''9'')) = foldl f (10 * a + 9) (replicate n (CHR ''9''))"
    by (simp add: f_def)
  also have "\<dots> = (10 * a + 9 + 1) * 10 ^ n - 1"
    unfolding f_def by (rule Suc)
  also have "\<dots> = (a + 1) * 10 ^ Suc n - 1"
    by (simp add: algebra_simps)
  finally show ?case unfolding f_def .
qed

lemma digits_val_nines: "digits_val (replicate n (CHR ''9'')) = 10 ^ n - 1"
  by (simp add: digits_val_def foldl_nines)

lemma decimal_text_nines: "0 < n \<Longrightarrow> decimal_text (replicate n (CHR ''9''))"
  by (simp add: decimal_text_def Let_def isdigit_def)

lemma decimal_value_nines: "decimal_value (replicate n (CHR ''9'')) = 10 ^ n - 1"
  by (simp add: decimal_value_def Let_def isdigit_def digits_val_nines)

lemma isValidDecimal_nines:
  "isValidDecimal (replicate 310 (CHR ''9'')) = Inl Out_of_range"
proof -
  have "(2::rat) ^ 1024 \<le> 10 ^ 310 - 1" by simp
  then have "to_double (10 ^ 310 - 1) = PInf"
    by (intro to_double_overflow) (simp only: DBL_MAX_EXP_def)
  then show ?thesis
    by (simp add: isValidDecimal_eq decimal_text_nines decimal_value_nines)
qed

lemma to_double_1000: "to_double 1000 = Finite 1000"
  using to_double_of_int[of 1000] by (simp add: DBL_MANT_DIG_def)

lemma to_double_small:
  "to_double 12 = Finite 12" "to_double 8 = Finite 8" "to_double 200 = Finite 200"
  "to_double 3 = Finite 3" "to_double 84 = Finite 84" "to_double 600 = Finite 600"
  using to_double_of_int[of 12] to_double_of_int[of 8] to_double_of_int[of 200]
    to_double_of_int[of 3] to_double_of_int[of 84] to_double_of_int[of 600]
  by (simp_all add: DBL_MANT_DIG_def)

lemma to_double_halves:
  "to_double (25 / 2) = Finite (25 / 2)" "to_double (21 / 2) = Finite (21 / 2)"
  using to_double_dyadic[of 25 1] to_double_dyadic[of 21 1]
  by (simp_all add: DBL_MANT_DIG_def DBL_DENORM_EXP_def)

lemmas decimal_defs = isValidDecimal_eq decimal_text_def decimal_value_def Let_def



lemma to_double_three: "to_double 3 = Finite 3"
  by (rule to_double_small)


lemma isValidDecimal_examples:
  "isValidDecimal ''12'' = Inr (Some (Finite 12))"
  "isValidDecimal ''12.5'' = Inr (Some (Finite (25 / 2)))"
  "isValidDecimal ''12.345'' = Inr None"
  "isValidDecimal ''abc'' = Inr None"
  "isValidDecimal ''-1.5'' = Inr None"
  by (simp_all add: decimal_defs char_defs to_double_small to_double_halves)

lemma isValidDecimal_more:
  "isValidDecimal ''1000'' = Inr (Some (Finite 1000))"
  "isValidDecimal ''10.5'' = Inr (Some (Finite (21 / 2)))"
  "isValidDecimal ''8'' = Inr (Some (Finite 8))"
  "isValidDecimal ''200'' = Inr (Some (Finite 200))"
  "isValidDecimal ''0'' = Inr (Some (Finite 0))"
  "isValidDecimal ''0.00'' = Inr (Some (Finite 0))"
  by (simp_all add: decimal_defs char_defs to_double_small to_double_halves to_double_1000
        to_double_zero)


lemma isValidID_iff: "isValidID i \<longleftrightarrow> i \<noteq> [] \<and> list_all isalnum i"
proof -
  have a: "(\<exists>a \<in> set [Range (CHR ''a'') (CHR ''z''), Range (CHR ''A'') (CHR ''Z''),
                Range (CHR ''0'') (CHR ''9'')]. atom_match a c) \<longleftrightarrow> isalnum c" for c
    by (simp add: isalnum_def)
  have "\<not> isalnum (CHR '' '')" by (simp add: isalnum_def)
  then have "list_all isalnum i \<Longrightarrow> CHR '' '' \<notin> set i"
    by (auto simp: list_all_iff)
  then show ?thesis
    unfolding isValidID_def idRegex_def regex_match_Plus_Sym a
    by (auto simp: list_all_iff)
qed

lemma isValidID_examples:
  "\<not> isValidID ''''" "\<not> isValidID ''ab 12''" "isValidID ''ab12''" "\<not> isValidID ''ab-12''"
  by (simp_all add: isValidID_iff isalnum_def)

section \<open>The prompting loops\<close>

lemma cin_print [simp]: "cin (print xs c) = cin c"
  by (simp add: print_def)

lemma cout_print [simp]: "cout (print xs c) = cout c @ xs"
  by (simp add: print_def)

lemma getEmployeeId_Returns:
  "getEmployeeId employees c = Returns (i, c') \<Longrightarrow>
     \<exists>pre. cin c = pre @ i # cin c' \<and> i \<noteq> [] \<and> isValidID i \<and> isIdUnique employees i"
proof (induction employees c rule: getEmployeeId.induct)
  case (1 employees out)
  then show ?case by simp
next
  case (2 employees ident rest out)
  let ?c = "Console rest (out @ [Str ''Enter Employee ID: ''])"
  show ?case
  proof (cases "ident \<noteq> [] \<and> isValidID ident \<and> isIdUnique employees ident")
    case True
    with "2.prems" have "i = ident" "c' = ?c" by (simp_all add: Let_def)
    with True show ?thesis by (intro exI[of _ "[]"]) simp
  next
    case False
    then obtain msg where "getEmployeeId employees (print msg ?c) = Returns (i, c')"
      using "2.prems" by (auto simp: Let_def split: if_splits)
    moreover from False have
      "getEmployeeId employees (print msg ?c) = Returns (i, c') \<Longrightarrow>
         \<exists>pre. cin (print msg ?c) = pre @ i # cin c' \<and> i \<noteq> [] \<and> isValidID i \<and> isIdUnique employees i" for msg
      using "2.IH" "2.prems" by (auto simp: Let_def split: if_splits)
    ultimately obtain pre where "cin (print msg ?c) = pre @ i # cin c'" "i \<noteq> []" "isValidID i" "isIdUnique employees i"
      by blast
    then show ?thesis by (intro exI[of _ "ident # pre"]) simp
  qed
qed


lemma getEmployeeName_Returns:
  "getEmployeeName c = Returns (n, c') \<Longrightarrow> \<exists>pre. cin c = pre @ n # cin c' \<and> n \<noteq> []"
proof (induction c rule: getEmployeeName.induct)
  case (1 out)
  then show ?case by simp
next
  case (2 name rest out)
  let ?c = "Console rest (out @ [Str ''Enter Employee Name: ''])"
  show ?case
  proof (cases "name \<noteq> []")
    case True
    with "2.prems" have "n = name" "c' = ?c" by (simp_all add: Let_def)
    with True show ?thesis by (intro exI[of _ "[]"]) simp
  next
    case False
    then obtain pre where "cin ?c = pre @ n # cin c'" "n \<noteq> []"
      using "2.IH" "2.prems" by (auto simp: Let_def)
    then show ?thesis by (intro exI[of _ "name # pre"]) simp
  qed
qed

lemma getValidDecimalInput_Console:
  "getValidDecimalInput prompt (Console inp out) = Returns (v, c') \<Longrightarrow>
     \<exists>pre input. inp = pre @ input # cin c' \<and> isValidDecimal input = Inr (Some v)
        \<and> dgt v (double_of_int 0)"
proof (induction inp arbitrary: out)
  case Nil
  then show ?case by simp
next
  case (Cons input rest)
  show ?case
  proof (cases "\<exists>w. isValidDecimal input = Inr (Some w) \<and> dgt w (double_of_int 0)")
    case True
    with Cons.prems have "isValidDecimal input = Inr (Some v)" "dgt v (double_of_int 0)"
      "cin c' = rest"
      by (auto simp: Let_def)
    then show ?thesis by (intro exI[of _ "[]"] exI[of _ input]) simp
  next
    case False
    then obtain out' where "getValidDecimalInput prompt (Console rest out') = Returns (v, c')"
      using Cons.prems
      by (auto simp: Let_def print_def split: sum.splits option.splits if_splits)
    from Cons.IH[OF this] obtain pre l where "rest = pre @ l # cin c'"
      "isValidDecimal l = Inr (Some v)" "dgt v (double_of_int 0)"
      by blast
    then show ?thesis by (intro exI[of _ "input # pre"] exI[of _ l]) simp
  qed
qed

lemma getValidDecimalInput_Returns:
  "getValidDecimalInput prompt c = Returns (v, c') \<Longrightarrow>
     \<exists>pre input. cin c = pre @ input # cin c' \<and> isValidDecimal input = Inr (Some v)
        \<and> dgt v (double_of_int 0)"
  by (cases c) (simp add: getValidDecimalInput_Console)

lemma getValidNumericInput_Console:
  "getValidNumericInput prompt (Console inp out) = Returns (v, c') \<Longrightarrow>
     \<exists>pre input. inp = pre @ input # cin c' \<and> isValidInteger input = Some v \<and> 0 \<le> v"
proof (induction inp arbitrary: out)
  case Nil
  then show ?case by simp
next
  case (Cons input rest)
  show ?case
  proof (cases "\<exists>w. isValidInteger input = Some w \<and> 0 \<le> w")
    case True
    with Cons.prems have "isValidInteger input = Some v" "0 \<le> v" "cin c' = rest"
      by (auto simp: Let_def)
    then show ?thesis by (intro exI[of _ "[]"] exI[of _ input]) simp
  next
    case False
    then obtain out' where "getValidNumericInput prompt (Console rest out') = Returns (v, c')"
      using Cons.prems
      by (auto simp: Let_def print_def split: option.splits if_splits)
    from Cons.IH[OF this] obtain pre l where "rest = pre @ l # cin c'"
      "isValidInteger l = Some v" "0 \<le> v"
      by blast
    then show ?thesis by (intro exI[of _ "input # pre"] exI[of _ l]) simp
  qed
qed

lemma getValidNumericInput_Returns:
  "getValidNumericInput prompt c = Returns (v, c') \<Longrightarrow>
     \<exists>pre input. cin c = pre @ input # cin c' \<and> isValidInteger input = Some v \<and> 0 \<le> v"
  by (cases c) (simp add: getValidNumericInput_Console)

lemma bind_Returns:
  "bind m f = Returns b \<longleftrightarrow> (\<exists>a. m = Returns a \<and> f a = Returns b)"
  by (cases m) (simp_all add: bind_def)

lemma cin_report_loop [simp]: "cin (report_loop emps c) = cin c"
  by (induction emps arbitrary: c) simp_all

lemma cin_displayPayrollReport [simp]: "cin (displayPayrollReport emps c) = cin c"
  by (simp add: displayPayrollReport_def)

lemma getEmployeeId_shorter:
  "getEmployeeId employees c = Returns (i, c') \<Longrightarrow> length (cin c') < length (cin c)"
  by (drule getEmployeeId_Returns) auto

lemma getEmployeeName_shorter:
  "getEmployeeName c = Returns (n, c') \<Longrightarrow> length (cin c') < length (cin c)"
  by (drule getEmployeeName_Returns) auto

lemma getValidDecimalInput_shorter:
  "getValidDecimalInput p c = Returns (v, c') \<Longrightarrow> length (cin c') < length (cin c)"
  by (drule getValidDecimalInput_Returns) auto

lemma getValidNumericInput_shorter:
  "getValidNumericInput p c = Returns (v, c') \<Longrightarrow> length (cin c') < length (cin c)"
  by (drule getValidNumericInput_Returns) auto

lemma addFullTimeEmployee_shorter:
  "addFullTimeEmployee employees c = Returns (es, c') \<Longrightarrow> length (cin c') < length (cin c)"
  unfolding addFullTimeEmployee_def
  by (auto simp: bind_Returns dest!: getEmployeeId_shorter getEmployeeName_shorter
        getValidDecimalInput_shorter)

lemma addPartTimeEmployee_shorter:
  "addPartTimeEmployee employees c = Returns (es, c') \<Longrightarrow> length (cin c') < length (cin c)"
  unfolding addPartTimeEmployee_def
  by (auto simp: bind_Returns dest!: getEmployeeId_shorter getEmployeeName_shorter
        getValidDecimalInput_shorter)

lemma addContractualEmployee_shorter:
  "addContractualEmployee employees c = Returns (es, c') \<Longrightarrow> length (cin c') < length (cin c)"
  unfolding addContractualEmployee_def
  by (auto simp: bind_Returns dest!: getEmployeeId_shorter getEmployeeName_shorter
        getValidDecimalInput_shorter getValidNumericInput_shorter)

lemma dispatch_not_longer:
  "dispatch option employees c = Returns (es, c') \<Longrightarrow> length (cin c') \<le> length (cin c)"
  unfolding dispatch_def
  by (auto split: if_splits dest: addFullTimeEmployee_shorter addPartTimeEmployee_shorter
        addContractualEmployee_shorter)

lemma main_body_shorter:
  "main_body (employees, c) = Returns (b, es, c') \<Longrightarrow> length (cin c') < length (cin c)"
  by (cases c rule: getEmployeeName.cases)
     (auto simp: Let_def bind_Returns split: option.splits dest!: dispatch_not_longer)

termination main_loop
  by (relation "measure (\<lambda>st. length (cin (snd st)))") (auto dest: main_body_shorter)

lemma getEmployeeId_accepts:
  "i \<noteq> [] \<Longrightarrow> isValidID i \<Longrightarrow> isIdUnique employees i \<Longrightarrow>
   getEmployeeId employees (Console (i # rest) out) =
     Returns (i, Console rest (out @ [Str ''Enter Employee ID: '']))"
  by simp

lemma getEmployeeName_accepts:
  "n \<noteq> [] \<Longrightarrow>
   getEmployeeName (Console (n # rest) out) =
     Returns (n, Console rest (out @ [Str ''Enter Employee Name: '']))"
  by simp

lemma getValidDecimalInput_accepts:
  "isValidDecimal input = Inr (Some v) \<Longrightarrow> dgt v (Finite 0) \<Longrightarrow>
   getValidDecimalInput prompt (Console (input # rest) out) =
     Returns (v, Console rest (out @ [Str prompt]))"
  by (simp add: double_of_int_zero)

lemma getValidNumericInput_accepts:
  "isValidInteger input = Some v \<Longrightarrow> 0 \<le> v \<Longrightarrow>
   getValidNumericInput prompt (Console (input # rest) out) =
     Returns (v, Console rest (out @ [Str prompt]))"
  by simp

lemma getEmployeeId_returns:
  "\<exists>l \<in> set inp. l \<noteq> [] \<and> isValidID l \<and> isIdUnique employees l \<Longrightarrow>
   \<exists>i c'. getEmployeeId employees (Console inp out) = Returns (i, c')"
proof (induction inp arbitrary: out)
  case Nil
  then show ?case by simp
next
  case (Cons l ls)
  show ?case
  proof (cases "l \<noteq> [] \<and> isValidID l \<and> isIdUnique employees l")
    case True
    then show ?thesis by simp
  next
    case False
    with Cons.prems have "\<exists>l \<in> set ls. l \<noteq> [] \<and> isValidID l \<and> isIdUnique employees l"
      by auto
    from Cons.IH[OF this] False show ?thesis
      by (auto simp: Let_def print_def)
  qed
qed

section \<open>What every stored record satisfies\<close>

lemma field_ok_iff: "field_ok v \<longleftrightarrow> (\<exists>r. v = Finite r \<and> 1 / 200 < r)"
  by (cases v) simp_all

lemma field_ok_dgt: "field_ok v \<Longrightarrow> dgt v (Finite 0)"
  by (cases v) simp_all

lemma isValidDecimal_positive:
  assumes "isValidDecimal input = Inr (Some v)" and "dgt v (double_of_int 0)"
  shows "field_ok v"
proof -
  from assms(1) have d: "decimal_text input" and v: "to_double (decimal_value input) = v"
    and np: "v \<noteq> PInf"
    by (auto simp: isValidDecimal_eq split: if_splits double.splits)
  from decimal_value_range[OF d] show ?thesis
  proof
    assume "decimal_value input = 0"
    with v have "v = Finite 0" by (simp add: to_double_zero)
    with assms(2) show ?thesis by (simp add: double_of_int_zero)
  next
    assume "1 / 100 \<le> decimal_value input"
    then have q: "1 / 40000 \<le> decimal_value input" "1 / 100 \<le> decimal_value input" by simp_all
    from to_double_positive[OF q(1)] v np obtain r where
      "v = Finite r" "decimal_value input < 2 * r" by auto
    with q(2) show ?thesis by simp
  qed
qed

lemma getValidDecimalInput_field_ok:
  "getValidDecimalInput prompt c = Returns (v, c') \<Longrightarrow> field_ok v"
  by (drule getValidDecimalInput_Returns) (auto intro: isValidDecimal_positive)

lemma isIdUnique_iff: "isIdUnique employees i \<longleftrightarrow> (\<forall>e \<in> set employees. getId e \<noteq> i)"
  by (auto simp: isIdUnique_def list_ex_iff)

lemma isValidInteger_range: "isValidInteger input = Some v \<Longrightarrow> v \<le> INT_MAX"
  by (drule isValidInteger_SomeD) simp

lemma registry_ok_snoc:
  "registry_ok employees \<Longrightarrow> isIdUnique employees (getId e) \<Longrightarrow> employee_ok e \<Longrightarrow>
     registry_ok (employees @ [e])"
  by (auto simp: registry_ok_def isIdUnique_iff)

lemma addFullTimeEmployee_appends:
  assumes "addFullTimeEmployee employees c = Returns (es, c')"
  shows "\<exists>e. es = employees @ [e] \<and> isIdUnique employees (getId e) \<and> employee_ok e"
proof -
  from assms obtain i c1 n c2 s c3 where
    "getEmployeeId employees c = Returns (i, c1)" "getEmployeeName c1 = Returns (n, c2)"
    "getValidDecimalInput ''Enter Monthly Salary: $'' c2 = Returns (s, c3)"
    "es = employees @ [FullTimeEmployee i n s]"
    unfolding addFullTimeEmployee_def by (auto simp: bind_Returns)
  then show ?thesis
    by (auto dest!: getEmployeeId_Returns getEmployeeName_Returns getValidDecimalInput_field_ok)
qed

lemma addPartTimeEmployee_appends:
  assumes "addPartTimeEmployee employees c = Returns (es, c')"
  shows "\<exists>e. es = employees @ [e] \<and> isIdUnique employees (getId e) \<and> employee_ok e"
proof -
  from assms obtain i c1 n c2 w c3 h c4 where
    "getEmployeeId employees c = Returns (i, c1)" "getEmployeeName c1 = Returns (n, c2)"
    "getValidDecimalInput ''Enter Hourly Wage: $'' c2 = Returns (w, c3)"
    "getValidDecimalInput ''Enter Number of Hours Worked: '' c3 = Returns (h, c4)"
    "es = employees @ [PartTimeEmployee i n w h]"
    unfolding addPartTimeEmployee_def by (auto simp: bind_Returns)
  then show ?thesis
    by (auto dest!: getEmployeeId_Returns getEmployeeName_Returns getValidDecimalInput_field_ok)
qed

lemma addContractualEmployee_appends:
  assumes "addContractualEmployee employees c = Returns (es, c')"
  shows "\<exists>e. es = employees @ [e] \<and> isIdUnique employees (getId e) \<and> employee_ok e"
proof -
  from assms obtain i c1 n c2 p c3 k c4 where
    "getEmployeeId employees c = Returns (i, c1)" "getEmployeeName c1 = Returns (n, c2)"
    "getValidDecimalInput ''Enter Payment Per Project: $'' c2 = Returns (p, c3)"
    "getValidNumericInput ''Enter Number of Projects Completed: '' c3 = Returns (k, c4)"
    "es = employees @ [ContractualEmployee i n p k]"
    unfolding addContractualEmployee_def by (auto simp: bind_Returns)
  then show ?thesis
    by (auto dest!: getEmployeeId_Returns getEmployeeName_Returns getValidDecimalInput_field_ok
          getValidNumericInput_Returns isValidInteger_range)
qed

lemma dispatch_ok:
  assumes "dispatch option employees c = Returns (es, c')" and "registry_ok employees"
  shows "registry_ok es"
  using assms unfolding dispatch_def
  by (auto split: if_splits intro: registry_ok_snoc
        dest!: addFullTimeEmployee_appends addPartTimeEmployee_appends
          addContractualEmployee_appends)

lemma main_body_ok:
  assumes "main_body (employees, c) = Returns (b, es, c')" and "registry_ok employees"
  shows "registry_ok es"
  using assms
  by (cases c rule: getEmployeeName.cases)
     (auto simp: Let_def bind_Returns split: option.splits dest: dispatch_ok)

lemma main_body_ok_state:
  "main_body st = Returns (b, st') \<Longrightarrow> registry_ok (fst st) \<Longrightarrow> registry_ok (fst st')"
  by (cases st; cases st') (auto dest: main_body_ok)

lemma reachable_ok: "reachable st \<Longrightarrow> registry_ok (fst st)"
proof (induction rule: reachable.induct)
  case (start input)
  show ?case by (simp add: registry_ok_def)
next
  case (round st continue st')
  from round.hyps(2) round.IH show ?case by (rule main_body_ok_state)
qed

section \<open>The report\<close>

lemma report_loop_eq:
  "report_loop emps c =
     print (concat (map (\<lambda>e. employee_displayPayrollReport e @ [Endl]) emps)) c"
  by (induction emps arbitrary: c) (simp_all add: print_def)



lemma pay_lines_block:
  "pay_lines (employee_displayPayrollReport e @ Endl # rest) = calculateSalary e # pay_lines rest"
  by (cases e) simp_all

lemma pay_lines_report:
  "pay_lines (concat (map (\<lambda>e. employee_displayPayrollReport e @ [Endl]) emps)) =
     map calculateSalary emps"
  by (induction emps) (simp_all add: pay_lines_block)

text \<open>
  C8.  The pay a report shows for a record is the value of \<open>calculateSalary\<close>
  on the fields stored in that record, computed when the report is
  rendered: each block ends with the line of that value, and the pay lines
  of a report are the values of \<open>calculateSalary\<close> on the records, in order.
  A record has no field for the pay.  Rendering reads no input and leaves
  the registry and every record in it as they were.
\<close>

theorem C8_pay_is_computed:
  "(\<exists>pre label. employee_displayPayrollReport e =
       pre @ [Str label, Dbl (calculateSalary e), Endl]) \<and>
   pay_lines (cout (displayPayrollReport employees (Console input []))) =
     map calculateSalary employees \<and>
   cin (displayPayrollReport employees c) = cin c \<and>
   dispatch 4 employees c = Returns (employees, displayPayrollReport employees c)"
proof -
  have "\<exists>pre label. employee_displayPayrollReport e =
       pre @ [Str label, Dbl (calculateSalary e), Endl]"
    by (cases e) simp_all
  moreover have "pay_lines (cout (displayPayrollReport employees (Console input []))) =
     map calculateSalary employees"
    by (simp add: displayPayrollReport_def report_loop_eq pay_lines_report)
  moreover have "dispatch 4 employees c = Returns (employees, displayPayrollReport employees c)"
    by (simp add: dispatch_def)
  ultimately show ?thesis by simp
qed

theorem C8_pay_is_computed_witness:
  "pay_lines (cout (displayPayrollReport
      [FullTimeEmployee ''E1'' ''Ann'' (Finite 1000),
       PartTimeEmployee ''E2'' ''Bo'' (Finite (21 / 2)) (Finite 8)] (Console [''5''] []))) =
     [Finite 1000, Finite 84] \<and>
   cin (displayPayrollReport
      [FullTimeEmployee ''E1'' ''Ann'' (Finite 1000),
       PartTimeEmployee ''E2'' ''Bo'' (Finite (21 / 2)) (Finite 8)] (Console [''5''] [])) = [''5''] \<and>
   (\<exists>c. dispatch 4
      [FullTimeEmployee ''E1'' ''Ann'' (Finite 1000),
       PartTimeEmployee ''E2'' ''Bo'' (Finite (21 / 2)) (Finite 8)] (Console [''5''] []) =
      Returns ([FullTimeEmployee ''E1'' ''Ann'' (Finite 1000),
                PartTimeEmployee ''E2'' ''Bo'' (Finite (21 / 2)) (Finite 8)], c))"
  using C8_pay_is_computed
    [of "FullTimeEmployee ''E1'' ''Ann'' (Finite 1000)"
        "[FullTimeEmployee ''E1'' ''Ann'' (Finite 1000),
          PartTimeEmployee ''E2'' ''Bo'' (Finite (21 / 2)) (Finite 8)]"
        "[''5'']" "Console [''5''] []"]
  by (simp add: to_double_small)

section \<open>Rounds of the menu loop\<close>

lemma main_body_5_exits:
  "main_body (employees, Console (''5'' # rest) out) =
     Returns (False, employees,
       Console rest (out @ menu @ [Str ''Exiting program. Goodbye!'', Endl]))"
  by (simp add: isValidMenuNumber_def integer_defs char_defs dispatch_def bind_def print_def)

lemma main_body_exits_only_on_5:
  "main_body (employees, Console (choice # rest) out) = Returns (False, st') \<Longrightarrow> choice = ''5''"
  by (auto simp: Let_def bind_Returns)

lemma main_body_rejects:
  "isValidMenuNumber choice 1 5 = None \<Longrightarrow>
   main_body (employees, Console (choice # rest) out) =
     Returns (True, employees,
       Console rest (out @ menu @
         [Str ''Invalid choice. Please enter a number between 1 and 5.'', Endl]))"
  by (auto simp: Let_def bind_def print_def isValidMenuNumber_def integer_defs char_defs)

lemma menu_out_of_range:
  "isValidMenuNumber ''6'' 1 5 = None" "isValidMenuNumber ''0'' 1 5 = None"
  by (simp_all add: isValidMenuNumber_def integer_defs char_defs)

lemma addFullTimeEmployee_consumes:
  assumes "addFullTimeEmployee employees c = Returns (es, c')"
  shows "\<exists>used. cin c = used @ cin c'"
proof -
  from assms obtain i c1 n c2 s c3 where
    "getEmployeeId employees c = Returns (i, c1)" "getEmployeeName c1 = Returns (n, c2)"
    "getValidDecimalInput ''Enter Monthly Salary: $'' c2 = Returns (s, c3)"
    "cin c' = cin c3"
    unfolding addFullTimeEmployee_def by (auto simp: bind_Returns)
  then obtain p1 p2 p3 l3 where "cin c = p1 @ i # cin c1" "cin c1 = p2 @ n # cin c2"
    "cin c2 = p3 @ l3 # cin c'"
    by (auto dest!: getEmployeeId_Returns getEmployeeName_Returns getValidDecimalInput_Returns)
  then have "cin c = (p1 @ i # p2 @ n # p3 @ [l3]) @ cin c'" by simp
  then show ?thesis by blast
qed

lemma addPartTimeEmployee_consumes:
  assumes "addPartTimeEmployee employees c = Returns (es, c')"
  shows "\<exists>used. cin c = used @ cin c'"
proof -
  from assms obtain i c1 n c2 w c3 h c4 where
    "getEmployeeId employees c = Returns (i, c1)" "getEmployeeName c1 = Returns (n, c2)"
    "getValidDecimalInput ''Enter Hourly Wage: $'' c2 = Returns (w, c3)"
    "getValidDecimalInput ''Enter Number of Hours Worked: '' c3 = Returns (h, c4)"
    "cin c' = cin c4"
    unfolding addPartTimeEmployee_def by (auto simp: bind_Returns)
  then obtain p1 p2 p3 l3 p4 l4 where "cin c = p1 @ i # cin c1" "cin c1 = p2 @ n # cin c2"
    "cin c2 = p3 @ l3 # cin c3" "cin c3 = p4 @ l4 # cin c'"
    by (auto dest!: getEmployeeId_Returns getEmployeeName_Returns getValidDecimalInput_Returns)
  then have "cin c = (p1 @ i # p2 @ n # p3 @ l3 # p4 @ [l4]) @ cin c'" by simp
  then show ?thesis by blast
qed

lemma addContractualEmployee_consumes:
  assumes "addContractualEmployee employees c = Returns (es, c')"
  shows "\<exists>used. cin c = used @ cin c'"
proof -
  from assms obtain i c1 n c2 p c3 k c4 where
    "getEmployeeId employees c = Returns (i, c1)" "getEmployeeName c1 = Returns (n, c2)"
    "getValidDecimalInput ''Enter Payment Per Project: $'' c2 = Returns (p, c3)"
    "getValidNumericInput ''Enter Number of Projects Completed: '' c3 = Returns (k, c4)"
    "cin c' = cin c4"
    unfolding addContractualEmployee_def by (auto simp: bind_Returns)
  then obtain p1 p2 p3 l3 p4 l4 where "cin c = p1 @ i # cin c1" "cin c1 = p2 @ n # cin c2"
    "cin c2 = p3 @ l3 # cin c3" "cin c3 = p4 @ l4 # cin c'"
    by (auto dest!: getEmployeeId_Returns getEmployeeName_Returns getValidDecimalInput_Returns
          getValidNumericInput_Returns)
  then have "cin c = (p1 @ i # p2 @ n # p3 @ l3 # p4 @ [l4]) @ cin c'" by simp
  then show ?thesis by blast
qed

lemma dispatch_consumes:
  assumes "dispatch option employees c = Returns (es, c')"
  shows "\<exists>used. cin c = used @ cin c'"
proof -
  have "cin c = [] @ cin c" by simp
  with assms show ?thesis
    unfolding dispatch_def
    by (auto split: if_splits
          dest: addFullTimeEmployee_consumes addPartTimeEmployee_consumes
            addContractualEmployee_consumes)
qed

lemma main_body_consumes:
  assumes "main_body (employees, Console (choice # rest) out) = Returns (b, es, c')"
  shows "b = (choice \<noteq> ''5'') \<and> (\<exists>used. rest = used @ cin c')"
proof -
  have "rest = [] @ rest" by simp
  with assms show ?thesis
    by (auto simp: Let_def bind_Returns split: option.splits dest!: dispatch_consumes)
qed

text \<open>The loop returns only after a line that is exactly \<open>5\<close>.\<close>

lemma main_loop_Returns:
  "main_loop st = Returns st' \<Longrightarrow> \<exists>pre. cin (snd st) = pre @ ''5'' # cin (snd st')"
proof (induction st rule: main_loop.induct)
  case (1 st)
  obtain employees c where st: "st = (employees, c)" by (cases st)
  from "1.prems" obtain continue st1 where
    body: "main_body st = Returns (continue, st1)"
    by (auto simp: main_loop.simps[of st] split: outcome.splits)
  then obtain choice rest out where c: "c = Console (choice # rest) out"
    using st by (cases c rule: getEmployeeName.cases) auto
  obtain es1 c1 where st1: "st1 = (es1, c1)" by (cases st1)
  from body st c st1 main_body_consumes[of employees choice rest out continue es1 c1]
  obtain used where u: "continue = (choice \<noteq> ''5'')" "rest = used @ cin c1" by blast
  show ?case
  proof (cases continue)
    case False
    with "1.prems" body have "st' = st1" by (simp add: main_loop.simps[of st])
    moreover from False u have "choice = ''5''" by simp
    moreover have "cin (snd st1) = rest"
    proof -
      from False u have "choice = ''5''" by simp
      with body st c have "main_body (employees, Console (''5'' # rest) out) =
          Returns (continue, st1)"
        by (simp only:)
      then have "Returns (continue, st1) =
          Returns (False, employees,
            Console rest (out @ menu @ [Str ''Exiting program. Goodbye!'', Endl]))"
        by (simp only: main_body_5_exits)
      then show ?thesis by simp
    qed
    ultimately show ?thesis using st c by (intro exI[of _ "[]"]) simp
  next
    case True
    with "1.prems" body have "main_loop st1 = Returns st'" by (simp add: main_loop.simps[of st])
    from "1.IH"[OF body refl True this] obtain pre where
      "cin (snd st1) = pre @ ''5'' # cin (snd st')" by blast
    with u st1 have "cin (snd st) = (choice # used @ pre) @ ''5'' # cin (snd st')"
      using st c by simp
    then show ?thesis by blast
  qed
qed

lemma main_loop_reachable:
  "main_loop st = Returns st' \<Longrightarrow> reachable st \<Longrightarrow> reachable st'"
proof (induction st rule: main_loop.induct)
  case (1 st)
  from "1.prems"(1) obtain continue st1 where
    body: "main_body st = Returns (continue, st1)"
    by (auto simp: main_loop.simps[of st] split: outcome.splits)
  with "1.prems"(2) have r: "reachable st1" by (rule reachable.round)
  show ?case
  proof (cases continue)
    case False
    with "1.prems"(1) body have "st' = st1" by (simp add: main_loop.simps[of st])
    with r show ?thesis by simp
  next
    case True
    with "1.prems"(1) body have "main_loop st1 = Returns st'" by (simp add: main_loop.simps[of st])
    from "1.IH"[OF body refl True this r] show ?thesis .
  qed
qed

text \<open>When \<open>main\<close> returns, the exit code is 0 and the last line read was \<open>5\<close>.\<close>

lemma main_Returns:
  assumes "main input = Returns (code, c)"
  shows "code = 0 \<and> (\<exists>pre. input = pre @ ''5'' # cin c)"
proof -
  from assms obtain es where "main_loop ([], Console input []) = Returns (es, c)" "code = 0"
    by (auto simp: main_def bind_Returns)
  with main_loop_Returns[of "([], Console input [])" "(es, c)"] show ?thesis by simp
qed

section \<open>Runs of the program\<close>

lemma menu_choices:
  "isValidMenuNumber ''1'' 1 5 = Some 1" "isValidMenuNumber ''2'' 1 5 = Some 2"
  "isValidMenuNumber ''3'' 1 5 = Some 3" "isValidMenuNumber ''4'' 1 5 = Some 4"
  "isValidMenuNumber ''5'' 1 5 = Some 5"
  by (simp_all add: isValidMenuNumber_def integer_defs char_defs)

lemma sample_ids: "isValidID ''E1''" "isValidID ''E2''" "isValidID ''E3''" "\<not> isValidID ''E 2''"
  by (simp_all add: isValidID_iff isalnum_def)

lemma isValidInteger_small:
  "isValidInteger ''0'' = Some 0" "isValidInteger ''3'' = Some 3"
  by (simp_all add: integer_defs char_defs)

lemmas run_defs = menu_choices sample_ids isValidDecimal_more isValidInteger_small
  dispatch_def addFullTimeEmployee_def addPartTimeEmployee_def addContractualEmployee_def
  bind_def isIdUnique_def print_def double_of_int_zero Let_def

lemma run_full_time:
  "\<exists>c. main_body ([], Console [''1'', ''E1'', ''Ann'', ''1000''] []) =
         Returns (True, [FullTimeEmployee ''E1'' ''Ann'' (Finite 1000)], c)"
  by (simp add: run_defs)

lemma run_contractual_zero:
  "\<exists>c. main_body ([], Console [''3'', ''E3'', ''Cy'', ''200'', ''0''] []) =
         Returns (True, [ContractualEmployee ''E3'' ''Cy'' (Finite 200) 0], c)"
  by (simp add: run_defs)

lemma run_prompt_id:
  "\<exists>c. getEmployeeId [FullTimeEmployee ''E1'' ''Ann'' (Finite 1000)]
         (Console [''E1'', '''', ''E 2'', ''E2''] []) = Returns (''E2'', c)"
  by (simp add: run_defs)

lemma run_add_part_time:
  "\<exists>c. addPartTimeEmployee [FullTimeEmployee ''E1'' ''Ann'' (Finite 1000)]
         (Console [''E1'', ''E2'', ''Bo'', ''10.5'', ''8''] []) =
       Returns ([FullTimeEmployee ''E1'' ''Ann'' (Finite 1000),
                 PartTimeEmployee ''E2'' ''Bo'' (Finite (21 / 2)) (Finite 8)], c)"
  by (simp add: run_defs)

lemma run_prompt_decimal:
  "\<exists>c. getValidDecimalInput ''Enter Hourly Wage: $'' (Console [''abc'', ''0'', ''-1.5'', ''10.5''] [])
         = Returns (Finite (21 / 2), c)"
  by (simp add: run_defs isValidDecimal_examples)




section \<open>The registry\<close>

lemma employee_ok_fields: "employee_ok e \<Longrightarrow> x \<in> set (decimal_fields e) \<Longrightarrow> field_ok x"
  by (cases e) auto

lemma add_keeps_distinct:
  assumes "\<exists>e. es = employees @ [e] \<and> isIdUnique employees (getId e) \<and> employee_ok e"
    and "distinct (map getId employees)"
  shows "distinct (map getId es)"
proof -
  from assms(1) obtain e where e: "es = employees @ [e]" "isIdUnique employees (getId e)"
    by blast
  from e(2) have "getId e \<notin> set (map getId employees)"
    by (auto simp: isIdUnique_iff)
  with assms(2) e(1) show ?thesis by simp
qed

text \<open>
  C1.  \<open>isIdUnique\<close> is true exactly when no stored record has the id.
  \<open>getEmployeeId\<close> returns only a text that is not empty, passes
  \<open>isValidID\<close> and is the id of no stored record.  Each of the three add
  operations keeps the stored ids pairwise distinct, and they are pairwise
  distinct in every reachable state.
\<close>

theorem C1_ids_stay_distinct:
  "(isIdUnique employees i \<longleftrightarrow> (\<forall>e \<in> set employees. getId e \<noteq> i)) \<and>
   (getEmployeeId employees c = Returns (j, c') \<longrightarrow>
      j \<noteq> [] \<and> isValidID j \<and> isIdUnique employees j) \<and>
   (distinct (map getId employees) \<and>
    (addFullTimeEmployee employees c = Returns (es, c1) \<or>
     addPartTimeEmployee employees c = Returns (es, c1) \<or>
     addContractualEmployee employees c = Returns (es, c1)) \<longrightarrow>
      distinct (map getId es)) \<and>
   (reachable st \<longrightarrow> distinct (map getId (fst st)))"
proof -
  have "getEmployeeId employees c = Returns (j, c') \<longrightarrow>
      j \<noteq> [] \<and> isValidID j \<and> isIdUnique employees j"
    by (auto dest: getEmployeeId_Returns)
  moreover have "distinct (map getId employees) \<and>
    (addFullTimeEmployee employees c = Returns (es, c1) \<or>
     addPartTimeEmployee employees c = Returns (es, c1) \<or>
     addContractualEmployee employees c = Returns (es, c1)) \<longrightarrow>
      distinct (map getId es)"
    using addFullTimeEmployee_appends[of employees c es c1]
      addPartTimeEmployee_appends[of employees c es c1]
      addContractualEmployee_appends[of employees c es c1]
    by (blast intro: add_keeps_distinct)
  moreover have "reachable st \<longrightarrow> distinct (map getId (fst st))"
    using reachable_ok[of st] by (simp add: registry_ok_def)
  ultimately show ?thesis using isIdUnique_iff[of employees i] by blast
qed

theorem C1_ids_stay_distinct_witness:
  "\<not> isIdUnique [FullTimeEmployee ''E1'' ''Ann'' (Finite 1000)] ''E1'' \<and>
   (\<exists>c'. getEmployeeId [FullTimeEmployee ''E1'' ''Ann'' (Finite 1000)]
            (Console [''E1'', '''', ''E 2'', ''E2''] []) = Returns (''E2'', c')) \<and>
   ''E2'' \<noteq> [] \<and> isValidID ''E2'' \<and>
   isIdUnique [FullTimeEmployee ''E1'' ''Ann'' (Finite 1000)] ''E2'' \<and>
   distinct (map getId [FullTimeEmployee ''E1'' ''Ann'' (Finite 1000)]) \<and>
   (\<exists>c1. addPartTimeEmployee [FullTimeEmployee ''E1'' ''Ann'' (Finite 1000)]
            (Console [''E1'', ''E2'', ''Bo'', ''10.5'', ''8''] []) =
          Returns ([FullTimeEmployee ''E1'' ''Ann'' (Finite 1000),
                    PartTimeEmployee ''E2'' ''Bo'' (Finite (21 / 2)) (Finite 8)], c1)) \<and>
   distinct (map getId [FullTimeEmployee ''E1'' ''Ann'' (Finite 1000),
                        PartTimeEmployee ''E2'' ''Bo'' (Finite (21 / 2)) (Finite 8)]) \<and>
   (\<exists>c. reachable ([FullTimeEmployee ''E1'' ''Ann'' (Finite 1000)], c) \<and>
        distinct (map getId (fst ([FullTimeEmployee ''E1'' ''Ann'' (Finite 1000)], c))))"
proof -
  let ?E1 = "FullTimeEmployee ''E1'' ''Ann'' (Finite 1000)"
  let ?E2 = "PartTimeEmployee ''E2'' ''Bo'' (Finite (21 / 2)) (Finite 8)"
  obtain c' where p: "getEmployeeId [?E1] (Console [''E1'', '''', ''E 2'', ''E2''] []) =
      Returns (''E2'', c')"
    using run_prompt_id by blast
  obtain c1 where a: "addPartTimeEmployee [?E1]
      (Console [''E1'', ''E2'', ''Bo'', ''10.5'', ''8''] []) = Returns ([?E1, ?E2], c1)"
    using run_add_part_time by blast
  obtain c where "main_body ([], Console [''1'', ''E1'', ''Ann'', ''1000''] []) =
      Returns (True, [?E1], c)"
    using run_full_time by blast
  with reachable.start have r: "reachable ([?E1], c)" by (rule reachable.round)
  have d: "distinct (map getId [?E1])" by simp
  from C1_ids_stay_distinct
         [of "[?E1]" "''E1''" "Console [''E1'', '''', ''E 2'', ''E2''] []" "''E2''" c'
             "[?E1, ?E2]" c1 "([?E1], c)"] p
  have 1: "\<not> isIdUnique [?E1] ''E1''" "''E2'' \<noteq> []" "isValidID ''E2''" "isIdUnique [?E1] ''E2''"
    by simp_all
  from C1_ids_stay_distinct
         [of "[?E1]" "''E1''" "Console [''E1'', ''E2'', ''Bo'', ''10.5'', ''8''] []" "''E2''" c'
             "[?E1, ?E2]" c1 "([?E1], c)"] a d r
  have 2: "distinct (map getId [?E1, ?E2])" "distinct (map getId (fst ([?E1], c)))"
    by blast+
  from 1 2 p a d r show ?thesis by blast
qed

text \<open>
  C6.  \<open>getValidDecimalInput\<close> returns only a value that \<open>isValidDecimal\<close>
  produced from a line that was entered, and that is strictly greater than
  zero.  So in every reachable state each decimal field of each record (the
  monthly salary, the hourly wage, the hours worked, the payment per
  project) is strictly greater than zero.
\<close>

theorem C6_decimal_fields_positive:
  "(getValidDecimalInput prompt c = Returns (v, c') \<longrightarrow>
      (\<exists>pre input. cin c = pre @ input # cin c' \<and> isValidDecimal input = Inr (Some v)) \<and>
      dgt v (Finite 0)) \<and>
   (reachable st \<longrightarrow> (\<forall>e \<in> set (fst st). \<forall>x \<in> set (decimal_fields e). dgt x (Finite 0)))"
proof -
  have "getValidDecimalInput prompt c = Returns (v, c') \<longrightarrow>
      (\<exists>pre input. cin c = pre @ input # cin c' \<and> isValidDecimal input = Inr (Some v)) \<and>
      dgt v (Finite 0)"
    using getValidDecimalInput_Returns[of prompt c v c']
    by (auto simp: double_of_int_zero)
  moreover have "reachable st \<longrightarrow>
      (\<forall>e \<in> set (fst st). \<forall>x \<in> set (decimal_fields e). dgt x (Finite 0))"
    using reachable_ok[of st]
    by (auto simp: registry_ok_def list_all_iff intro!: field_ok_dgt employee_ok_fields)
  ultimately show ?thesis by blast
qed

theorem C6_decimal_fields_positive_witness:
  "(\<exists>c'. getValidDecimalInput ''Enter Hourly Wage: $''
            (Console [''abc'', ''0'', ''-1.5'', ''10.5''] []) = Returns (Finite (21 / 2), c')) \<and>
   isValidDecimal ''10.5'' = Inr (Some (Finite (21 / 2))) \<and>
   dgt (Finite (21 / 2)) (Finite 0) \<and>
   (\<exists>c. reachable ([FullTimeEmployee ''E1'' ''Ann'' (Finite 1000)], c)) \<and>
   list_all (\<lambda>x. dgt x (Finite 0))
     (decimal_fields (FullTimeEmployee ''E1'' ''Ann'' (Finite 1000)))"
proof -
  let ?E1 = "FullTimeEmployee ''E1'' ''Ann'' (Finite 1000)"
  obtain c' where p: "getValidDecimalInput ''Enter Hourly Wage: $''
      (Console [''abc'', ''0'', ''-1.5'', ''10.5''] []) = Returns (Finite (21 / 2), c')"
    using run_prompt_decimal by blast
  obtain c where "main_body ([], Console [''1'', ''E1'', ''Ann'', ''1000''] []) =
      Returns (True, [?E1], c)"
    using run_full_time by blast
  with reachable.start have r: "reachable ([?E1], c)" by (rule reachable.round)
  from C6_decimal_fields_positive
         [of "''Enter Hourly Wage: $''" "Console [''abc'', ''0'', ''-1.5'', ''10.5''] []"
             "Finite (21 / 2)" c' "([?E1], c)"] p r
  have "dgt (Finite (21 / 2)) (Finite 0)"
    "\<forall>e \<in> set (fst ([?E1], c)). \<forall>x \<in> set (decimal_fields e). dgt x (Finite 0)"
    by blast+
  then have "dgt (Finite (21 / 2)) (Finite 0)"
    "list_all (\<lambda>x. dgt x (Finite 0)) (decimal_fields ?E1)"
    by (simp_all add: list_all_iff)
  with p r isValidDecimal_more(2) show ?thesis by blast
qed

lemma double_of_int_exact:
  assumes "0 \<le> k" and "k \<le> INT_MAX"
  shows "double_of_int k = Finite (of_int k)"
proof -
  have "\<bar>k\<bar> < 2 ^ DBL_MANT_DIG"
    using assms by (simp add: INT_MAX_def DBL_MANT_DIG_def)
  then show ?thesis unfolding double_of_int_def by (rule to_double_of_int)
qed

lemma positive_product:
  assumes "1 / 40000 \<le> q"
  shows "dge (to_double q) (Finite 0) \<and> to_double q \<noteq> Finite 0"
proof -
  from to_double_positive[OF assms] show ?thesis
  proof
    assume "to_double q = PInf"
    then show ?thesis by (simp add: dge_def)
  next
    assume "\<exists>r. to_double q = Finite r \<and> q < 2 * r"
    then obtain r where r: "to_double q = Finite r" "q < 2 * r" by blast
    with assms have "0 < r" by simp
    with r(1) show ?thesis by (simp add: dge_def)
  qed
qed

lemma pay_of_stored:
  assumes "employee_ok e"
  shows "dge (calculateSalary e) (Finite 0) \<and>
         (calculateSalary e = Finite 0 \<longleftrightarrow> (\<exists>i n p. e = ContractualEmployee i n p 0))"
proof (cases e)
  case (FullTimeEmployee i n s)
  with assms obtain r where "s = Finite r" "1 / 200 < r" by (auto simp: field_ok_iff)
  with FullTimeEmployee show ?thesis by (simp add: dge_def)
next
  case (PartTimeEmployee i n w h)
  with assms obtain a b where ab: "w = Finite a" "1 / 200 < a" "h = Finite b" "1 / 200 < b"
    by (auto simp: field_ok_iff)
  have "(1 / 200) * (1 / 200) \<le> a * b"
    using ab by (intro mult_mono) simp_all
  then have "1 / 40000 \<le> a * b" by simp
  from positive_product[OF this] PartTimeEmployee ab show ?thesis by simp
next
  case (ContractualEmployee i n p k)
  with assms obtain a where a: "p = Finite a" "1 / 200 < a" and k: "0 \<le> k" "k \<le> INT_MAX"
    by (auto simp: field_ok_iff)
  have pay: "calculateSalary e = to_double (a * of_int k)"
    using ContractualEmployee a double_of_int_exact[OF k] by simp
  show ?thesis
  proof (cases "k = 0")
    case True
    with pay ContractualEmployee show ?thesis by (simp add: to_double_zero dge_def)
  next
    case False
    with k have "(1::rat) \<le> of_int k" by simp
    then have "(1 / 200) * 1 \<le> a * of_int k"
      using a by (intro mult_mono) simp_all
    then have "1 / 40000 \<le> a * of_int k" by simp
    from positive_product[OF this] pay False ContractualEmployee show ?thesis by simp
  qed
qed

text \<open>
  C10.  \<open>getValidNumericInput\<close> accepts zero, so a contractual record with
  no completed project can be stored.  In every reachable state the pay
  computed for a record is at least zero, and it is zero exactly for the
  contractual records with no completed project.
\<close>

theorem C10_zero_pay:
  "getValidNumericInput prompt (Console (''0'' # rest) out) =
     Returns (0, Console rest (out @ [Str prompt])) \<and>
   (\<exists>st0. reachable st0 \<and> ContractualEmployee ''E3'' ''Cy'' (Finite 200) 0 \<in> set (fst st0)) \<and>
   (reachable st \<longrightarrow>
      (\<forall>e \<in> set (fst st).
         dge (calculateSalary e) (Finite 0) \<and>
         (calculateSalary e = Finite 0 \<longleftrightarrow> (\<exists>i n p. e = ContractualEmployee i n p 0))))"
proof -
  have "getValidNumericInput prompt (Console (''0'' # rest) out) =
     Returns (0, Console rest (out @ [Str prompt]))"
    by (simp add: isValidInteger_small)
  moreover have "\<exists>st0. reachable st0 \<and>
      ContractualEmployee ''E3'' ''Cy'' (Finite 200) 0 \<in> set (fst st0)"
  proof -
    obtain c where "main_body ([], Console [''3'', ''E3'', ''Cy'', ''200'', ''0''] []) =
        Returns (True, [ContractualEmployee ''E3'' ''Cy'' (Finite 200) 0], c)"
      using run_contractual_zero by blast
    with reachable.start
    have "reachable ([ContractualEmployee ''E3'' ''Cy'' (Finite 200) 0], c)"
      by (rule reachable.round)
    then show ?thesis by force
  qed
  moreover have "reachable st \<longrightarrow>
      (\<forall>e \<in> set (fst st).
         dge (calculateSalary e) (Finite 0) \<and>
         (calculateSalary e = Finite 0 \<longleftrightarrow> (\<exists>i n p. e = ContractualEmployee i n p 0)))"
    using reachable_ok[of st] pay_of_stored
    by (auto simp: registry_ok_def list_all_iff)
  ultimately show ?thesis by blast
qed

theorem C10_zero_pay_witness:
  "(\<exists>c. reachable ([ContractualEmployee ''E3'' ''Cy'' (Finite 200) 0], c)) \<and>
   calculateSalary (ContractualEmployee ''E3'' ''Cy'' (Finite 200) 0) = Finite 0 \<and>
   dge (calculateSalary (ContractualEmployee ''E3'' ''Cy'' (Finite 200) 0)) (Finite 0) \<and>
   (\<exists>c. reachable ([FullTimeEmployee ''E1'' ''Ann'' (Finite 1000)], c)) \<and>
   calculateSalary (FullTimeEmployee ''E1'' ''Ann'' (Finite 1000)) \<noteq> Finite 0 \<and>
   dge (calculateSalary (FullTimeEmployee ''E1'' ''Ann'' (Finite 1000))) (Finite 0)"
proof -
  let ?E1 = "FullTimeEmployee ''E1'' ''Ann'' (Finite 1000)"
  let ?E3 = "ContractualEmployee ''E3'' ''Cy'' (Finite 200) 0"
  obtain c3 where "main_body ([], Console [''3'', ''E3'', ''Cy'', ''200'', ''0''] []) =
      Returns (True, [?E3], c3)"
    using run_contractual_zero by blast
  with reachable.start have r3: "reachable ([?E3], c3)" by (rule reachable.round)
  obtain c1 where "main_body ([], Console [''1'', ''E1'', ''Ann'', ''1000''] []) =
      Returns (True, [?E1], c1)"
    using run_full_time by blast
  with reachable.start have r1: "reachable ([?E1], c1)" by (rule reachable.round)
  from C10_zero_pay[of "[]" "[]" "[]" "([?E3], c3)"] r3
  have 3: "calculateSalary ?E3 = Finite 0" "dge (calculateSalary ?E3) (Finite 0)"
    by auto
  from C10_zero_pay[of "[]" "[]" "[]" "([?E1], c1)"] r1
  have 1: "calculateSalary ?E1 \<noteq> Finite 0" "dge (calculateSalary ?E1) (Finite 0)"
    by auto
  from r1 r3 1 3 show ?thesis by blast
qed





section \<open>Two defects\<close>

text \<open>
  C5.  The claim that the loop ends whenever the input is accepted as the
  menu choice 5 fails on the line \<open>05\<close>: it is accepted, with the option 5,
  and the farewell is printed, but the condition of the loop compares the
  text of the line with \<open>"5"\<close>, so the loop goes round again and waits for
  another line.
\<close>

theorem C5_goodbye_without_exit:
  "isValidMenuNumber ''05'' 1 5 = Some 5 \<and>
   main_body (employees, Console (''05'' # rest) out) =
     Returns (True, employees,
       Console rest (out @ menu @ [Str ''Exiting program. Goodbye!'', Endl])) \<and>
   main_loop (employees, Console [''05''] out) = Blocks"
  by (simp add: isValidMenuNumber_def integer_defs char_defs dispatch_def bind_def print_def)

theorem C5_goodbye_without_exit_witness:
  "main_body ([], Console [''05'', ''5''] []) =
     Returns (True, [], Console [''5''] (menu @ [Str ''Exiting program. Goodbye!'', Endl])) \<and>
   main_loop ([], Console [''05''] []) = Blocks"
  using C5_goodbye_without_exit[of "[]" "[''5'']" "[]"] C5_goodbye_without_exit[of "[]" "[]" "[]"]
  by simp

text \<open>
  C4.  The claim that \<open>isValidDecimal\<close> succeeds on every text of the
  decimal shape fails on a line of 310 nines: the text matches the pattern,
  \<open>stod\<close> throws \<open>std::out_of_range\<close>, and no handler catches it, neither
  in the validator nor in the prompt nor in \<open>main\<close>.
\<close>

theorem C4_overflow_leaves_validator:
  "regex_match (replicate 310 (CHR ''9'')) decimalRegex \<and>
   isValidDecimal (replicate 310 (CHR ''9'')) = Inl Out_of_range \<and>
   getValidDecimalInput prompt (Console (replicate 310 (CHR ''9'') # rest) out) =
     Throws Out_of_range \<and>
   main [''1'', ''E1'', ''Ann'', replicate 310 (CHR ''9'')] = Throws Out_of_range"
proof -
  have r: "regex_match (replicate 310 (CHR ''9'')) decimalRegex"
    by (simp add: regex_match_decimalRegex decimal_text_nines)
  have g: "getValidDecimalInput prompt (Console (replicate 310 (CHR ''9'') # rest) out) =
     Throws Out_of_range" for prompt rest out
    by (simp add: isValidDecimal_nines)
  have i: "isValidMenuNumber ''1'' 1 5 = Some 1"
    by (simp add: isValidMenuNumber_def integer_defs char_defs)
  have d: "isValidID ''E1''"
    by (simp add: isValidID_def idRegex_def Plus_def)
  have "main_body ([], Console [''1'', ''E1'', ''Ann'', replicate 310 (CHR ''9'')] []) =
          Throws Out_of_range"
    by (simp add: i d isValidDecimal_nines dispatch_def addFullTimeEmployee_def bind_def
          isIdUnique_def Let_def)
  then have "main [''1'', ''E1'', ''Ann'', replicate 310 (CHR ''9'')] = Throws Out_of_range"
    by (simp add: main_def bind_def)
  with r g isValidDecimal_nines show ?thesis by simp
qed

theorem C4_overflow_leaves_validator_witness:
  "getValidDecimalInput ''Enter Monthly Salary: $''
     (Console [replicate 310 (CHR ''9''), ''1000''] []) = Throws Out_of_range"
  using C4_overflow_leaves_validator[of "''Enter Monthly Salary: $''" "[''1000'']" "[]"]
  by simp

end
